theory Spec2Isabelle
  imports Complex_Main "HOL-Library.Sublist" "HOL-Library.Char_ord" "HOL-Library.List_Lexorder"
    "HOL-Library.Multiset"
begin

section \<open>The reaction network and its bounds\<close>

text \<open>
  The metabolic network is used by the scripts only through its reaction list
  (\<^verbatim>\<open>model.reactions\<close>, an ordered container keyed by reaction identifier) and through
  the two flux bounds of each reaction. A reaction is a record of its identifier and its
  bounds; the network is the list of its reactions. Bounds are real numbers: the scripts
  only compare, negate and assign them.
\<close>

record reaction =
  rid :: string
  lower_bound :: real
  upper_bound :: real

type_synonym network = "reaction list"

definition bounds :: "reaction \<Rightarrow> real \<times> real" where
  "bounds r = (lower_bound r, upper_bound r)"

text \<open>\<^verbatim>\<open>rid in model.reactions\<close>\<close>

definition has_rxn :: "network \<Rightarrow> string \<Rightarrow> bool" where
  "has_rxn model x = (x \<in> set (map rid model))"

text \<open>
  \<^verbatim>\<open>model.reactions.get_by_id(x).bounds = (l, u)\<close>: the reaction with identifier \<open>x\<close>
  gets both bounds assigned. Identifiers are unique in the container, so this touches
  one reaction. This is the store alone. The library refuses a store that would put
  the lower bound above the upper bound; \<open>set_bounds\<close> is used where the pair assigned
  is in order whatever the input is (\<open>(0, 500)\<close>, and \<open>(- dose, 0)\<close> for a positive
  dose), and the assignments of \<^verbatim>\<open>setup_medium\<close> are modelled with the refusal below.
\<close>

definition set_bounds :: "string \<Rightarrow> real \<times> real \<Rightarrow> network \<Rightarrow> network" where
  "set_bounds x b model =
     map (\<lambda>r. if rid r = x then r\<lparr>lower_bound := fst b, upper_bound := snd b\<rparr> else r) model"

subsection \<open>Identifier tables of \<^verbatim>\<open>02_run_simulation.py\<close>\<close>

datatype scfa = acetate | propionate | butyrate

fun SCFA_RXN_IDS :: "scfa \<Rightarrow> string list" where
  "SCFA_RXN_IDS acetate = [''EX_ac_e'', ''EX_ac[u]'', ''EX_ac(e)'']"
| "SCFA_RXN_IDS propionate = [''EX_ppa_e'', ''EX_propn_e'', ''EX_ppn_e'']"
| "SCFA_RXN_IDS butyrate = [''EX_but_e'', ''EX_btn_e'']"

definition GLUCOSE_IDS :: "string list" where
  "GLUCOSE_IDS = [''EX_glc__D_e'', ''EX_glc_D_e'', ''EX_glc[e]'']"

definition O2_IDS :: "string list" where
  "O2_IDS = [''EX_o2_e'', ''EX_o2[e]'']"

definition ATPM_IDS :: "string list" where
  "ATPM_IDS = [''ATPM'', ''DM_atp_c_'']"

definition FREE :: "string list" where
  "FREE = [''EX_h2o_e'', ''EX_h_e'']"

definition IONS :: "(string \<times> real) list" where
  "IONS = [(''EX_pi_e'', 10), (''EX_so4_e'', 10), (''EX_k_e'', 10), (''EX_na1_e'', 10),
           (''EX_ca2_e'', 10), (''EX_cl_e'', 10), (''EX_mg2_e'', 10), (''EX_fe2_e'', 10)]"

definition SECRETION :: "(string \<times> real) list" where
  "SECRETION = [(''EX_co2_e'', 1000), (''EX_nh4_e'', 100)]"

definition ESSENTIAL_AA :: "string list" where
  "ESSENTIAL_AA = [''EX_his__L_e'', ''EX_ile__L_e'', ''EX_leu__L_e'', ''EX_lys__L_e'',
                   ''EX_met__L_e'', ''EX_phe__L_e'', ''EX_thr__L_e'', ''EX_trp__L_e'',
                   ''EX_val__L_e'']"

definition VITAMINS :: "string list" where
  "VITAMINS = [''EX_thm_e'', ''EX_ribflv_e'', ''EX_ncam_e'', ''EX_pnto__R_e'',
               ''EX_pydxn_e'', ''EX_fol_e'', ''EX_cbl1_e'', ''EX_chol_e'', ''EX_inost_e'']"

definition PATHWAYS :: "(string \<times> string) list" where
  "PATHWAYS = [(''PYK'', ''pyruvate kinase''), (''PDHm'', ''pyruvate dehydrogenase''),
               (''CSm'', ''citrate synthase''), (''ACONTm'', ''aconitase''),
               (''ICDHxm'', ''isocitrate DH''), (''AKGDm'', ''alpha-KG DH''),
               (''SUCDi'', ''succinate DH''), (''FUMm'', ''fumarase''),
               (''MDHm'', ''malate DH''), (''PCm'', ''pyruvate carboxylase''),
               (''PEPCK'', ''PEPCK''), (''G6PDH2r'', ''G6PD''), (''FBA'', ''aldolase''),
               (''PFK'', ''PFK''), (''ATPS4mi'', ''ATP synthase''),
               (''NADH2_u10mi'', ''complex I''), (''CYOOm3i'', ''complex IV'')]"

subsection \<open>\<^verbatim>\<open>find_rxn\<close>\<close>

text \<open>
  The first candidate identifier that exists in the network, or \<open>None\<close>. The source
  returns the reaction object; every later use goes through its identifier.
\<close>

fun find_rxn :: "network \<Rightarrow> string list \<Rightarrow> string option" where
  "find_rxn model [] = None"
| "find_rxn model (c # candidates) =
     (if has_rxn model c then Some c else find_rxn model candidates)"

subsection \<open>\<^verbatim>\<open>setup_medium\<close>\<close>

text \<open>\<^verbatim>\<open>r.id.startswith(("EX_", "DM_", "sink_", "SK_"))\<close>\<close>

definition startswith :: "string \<Rightarrow> string list \<Rightarrow> bool" where
  "startswith s ps = list_ex (\<lambda>p. prefix p s) ps"

definition is_boundary :: "string \<Rightarrow> bool" where
  "is_boundary x = startswith x [''EX_'', ''DM_'', ''sink_'', ''SK_'']"

text \<open>
  The part of the run configuration that \<^verbatim>\<open>setup_medium\<close> reads,
  \<^verbatim>\<open>cfg["host_simulation"]\<close>. A key that is absent is \<open>None\<close>: the two required keys
  are read with \<^verbatim>\<open>sim[...]\<close>, which raises \<^verbatim>\<open>KeyError\<close>, the two optional ones with
  \<^verbatim>\<open>sim.get(..., 0.01)\<close>.
\<close>

record host_simulation =
  oxygen_uptake :: "real option"
  glucose_uptake :: "real option"
  amino_acid_uptake :: "real option"
  vitamin_uptake :: "real option"

datatype value_error =
    MissingColumns "string set"
  | ConditionsMismatch "string list" "string list"
  | NegativeValues string
  | InvalidBounds real real

datatype error =
    ValueError value_error
  | KeyError string
  | RuntimeError_no_ATPM

text \<open>
  The three ways in which the scripts assign bounds to a reaction object,
  \<^verbatim>\<open>r.lower_bound = v\<close>, \<^verbatim>\<open>r.upper_bound = v\<close> and \<^verbatim>\<open>r.bounds = (l, u)\<close>. Each goes
  through a setter of the library, which raises \<^verbatim>\<open>ValueError\<close> and leaves the reaction
  as it is when the assignment would put the lower bound above the upper bound.
\<close>

definition assign_lower_bound :: "real \<Rightarrow> reaction \<Rightarrow> error + reaction" where
  "assign_lower_bound v r =
     (if upper_bound r < v then Inl (ValueError (InvalidBounds v (upper_bound r)))
      else Inr (r\<lparr>lower_bound := v\<rparr>))"

definition assign_upper_bound :: "real \<Rightarrow> reaction \<Rightarrow> error + reaction" where
  "assign_upper_bound v r =
     (if v < lower_bound r then Inl (ValueError (InvalidBounds (lower_bound r) v))
      else Inr (r\<lparr>upper_bound := v\<rparr>))"

definition assign_bounds :: "real \<times> real \<Rightarrow> reaction \<Rightarrow> error + reaction" where
  "assign_bounds b r =
     (if snd b < fst b then Inl (ValueError (InvalidBounds (fst b) (snd b)))
      else Inr (r\<lparr>lower_bound := fst b, upper_bound := snd b\<rparr>))"

text \<open>
  \<^verbatim>\<open>model.reactions.get_by_id(x)\<close> followed by an assignment \<open>f\<close> to the reaction found.
  \<^verbatim>\<open>get_by_id\<close> raises \<^verbatim>\<open>KeyError\<close> for an identifier that is not in the container.
\<close>

fun update_by_id :: "string \<Rightarrow> (reaction \<Rightarrow> error + reaction) \<Rightarrow> network \<Rightarrow> error + network" where
  "update_by_id x f [] = Inl (KeyError x)"
| "update_by_id x f (r # rs) =
     (if rid r = x
      then (case f r of Inl e \<Rightarrow> Inl e | Inr r' \<Rightarrow> Inr (r' # rs))
      else (case update_by_id x f rs of Inl e \<Rightarrow> Inl e | Inr rs' \<Rightarrow> Inr (r # rs')))"

text \<open>
  First loop: cap the bounds of the internal reactions. The body, on one reaction:
  \<^verbatim>\<open>if r.lower_bound < -500: r.lower_bound = -500\<close>, then
  \<^verbatim>\<open>if r.upper_bound > 500: r.upper_bound = 500\<close>. The loop visits the reactions in
  order and ends at the first assignment that raises.
\<close>

definition cap_internal :: "reaction \<Rightarrow> error + reaction" where
  "cap_internal r =
     (if \<not> is_boundary (rid r) then
        (case (if lower_bound r < - 500 then assign_lower_bound (- 500) r else Inr r) of
           Inl e \<Rightarrow> Inl e
         | Inr r1 \<Rightarrow> (if upper_bound r1 > 500 then assign_upper_bound 500 r1 else Inr r1))
      else Inr r)"

fun cap_all :: "network \<Rightarrow> error + network" where
  "cap_all [] = Inr []"
| "cap_all (r # rs) =
     (case cap_internal r of
        Inl e \<Rightarrow> Inl e
      | Inr r' \<Rightarrow> (case cap_all rs of Inl e \<Rightarrow> Inl e | Inr rs' \<Rightarrow> Inr (r' # rs')))"

text \<open>
  Second loop: close every boundary reaction, \<^verbatim>\<open>r.bounds = (0, 0)\<close>. The pair is in
  order, so the assignment is always accepted.
\<close>

definition close_boundary :: "reaction \<Rightarrow> reaction" where
  "close_boundary r =
     (if is_boundary (rid r) then r\<lparr>lower_bound := 0, upper_bound := 0\<rparr> else r)"

text \<open>
  \<^verbatim>\<open>for x in xs: if x in model.reactions: model.reactions.get_by_id(x).bounds = b\<close>,
  and the same loop over the items of a table, where the bound depends on the item.
\<close>

fun open_each :: "string list \<Rightarrow> real \<times> real \<Rightarrow> network \<Rightarrow> error + network" where
  "open_each [] b model = Inr model"
| "open_each (x # xs) b model =
     (if has_rxn model x
      then (case update_by_id x (assign_bounds b) model of
              Inl e \<Rightarrow> Inl e
            | Inr m \<Rightarrow> open_each xs b m)
      else open_each xs b model)"

fun open_items ::
  "(string \<times> real) list \<Rightarrow> (real \<Rightarrow> real \<times> real) \<Rightarrow> network \<Rightarrow> error + network" where
  "open_items [] f model = Inr model"
| "open_items ((x, ub) # items) f model =
     (if has_rxn model x
      then (case update_by_id x (assign_bounds (f ub)) model of
              Inl e \<Rightarrow> Inl e
            | Inr m \<Rightarrow> open_items items f m)
      else open_items items f model)"

text \<open>\<^verbatim>\<open>rxn = find_rxn(model, ids); if rxn: rxn.bounds = b\<close>\<close>

definition open_resolved :: "string list \<Rightarrow> real \<times> real \<Rightarrow> network \<Rightarrow> error + network" where
  "open_resolved ids b model =
     (case find_rxn model ids of
        None \<Rightarrow> Inr model
      | Some x \<Rightarrow> update_by_id x (assign_bounds b) model)"

text \<open>
  \<^verbatim>\<open>setup_medium\<close>. The function changes the network in place and returns nothing;
  the model returns the network it leaves when it returns, and otherwise the error
  that it raised.
\<close>

definition setup_medium :: "network \<Rightarrow> host_simulation \<Rightarrow> error + network" where
  "setup_medium model sim =
     (case cap_all model of Inl e \<Rightarrow> Inl e | Inr m1 \<Rightarrow>
      (let m2 = map close_boundary m1 in
       case open_each FREE (- 1000, 1000) m2 of Inl e \<Rightarrow> Inl e | Inr m3 \<Rightarrow>
       case open_items IONS (\<lambda>ub. (- ub, 100)) m3 of Inl e \<Rightarrow> Inl e | Inr m4 \<Rightarrow>
       case open_items SECRETION (\<lambda>ub. (0, ub)) m4 of Inl e \<Rightarrow> Inl e | Inr m5 \<Rightarrow>
       case (if has_rxn m5 ''EX_nh4_e''
             then update_by_id ''EX_nh4_e'' (assign_lower_bound (- 0.5)) m5
             else Inr m5) of Inl e \<Rightarrow> Inl e | Inr m6 \<Rightarrow>
       case oxygen_uptake sim of None \<Rightarrow> Inl (KeyError ''oxygen_uptake'') | Some o2_bound \<Rightarrow>
       case open_resolved O2_IDS (- o2_bound, 0) m6 of Inl e \<Rightarrow> Inl e | Inr m7 \<Rightarrow>
       case glucose_uptake sim of None \<Rightarrow> Inl (KeyError ''glucose_uptake'') | Some glc \<Rightarrow>
       case open_resolved GLUCOSE_IDS (- glc, 0) m7 of Inl e \<Rightarrow> Inl e | Inr m8 \<Rightarrow>
       (let aa = (case amino_acid_uptake sim of None \<Rightarrow> 0.01 | Some v \<Rightarrow> v) in
        case open_each ESSENTIAL_AA (- aa, 0) m8 of Inl e \<Rightarrow> Inl e | Inr m9 \<Rightarrow>
        (let vit = (case vitamin_uptake sim of None \<Rightarrow> 0.01 | Some v \<Rightarrow> v) in
         open_each VITAMINS (- vit, 0) m9))))"

text \<open>
  The identifiers that the reopening steps of \<^verbatim>\<open>setup_medium\<close> can touch in a given
  network: the free exchanges, the ions, the secretion products, the oxygen and the
  glucose exchange as resolved by \<^verbatim>\<open>find_rxn\<close>, the essential amino acids and the
  vitamins.
\<close>

definition reopened_ids :: "network \<Rightarrow> string list" where
  "reopened_ids model =
     FREE @ map fst IONS @ map fst SECRETION
     @ (case find_rxn model O2_IDS of None \<Rightarrow> [] | Some x \<Rightarrow> [x])
     @ (case find_rxn model GLUCOSE_IDS of None \<Rightarrow> [] | Some x \<Rightarrow> [x])
     @ ESSENTIAL_AA @ VITAMINS"

text \<open>
  \<open>frame xs m m'\<close>: the network \<open>m'\<close> has the reactions of \<open>m\<close>, in the same order and
  under the same identifiers, and differs from it at most in reactions whose
  identifier is in \<open>xs\<close>.
\<close>

definition frame :: "string list \<Rightarrow> network \<Rightarrow> network \<Rightarrow> bool" where
  "frame xs m m' \<longleftrightarrow>
     map rid m' = map rid m \<and> (\<forall>i < length m. rid (m ! i) \<notin> set xs \<longrightarrow> m' ! i = m ! i)"

section \<open>The dose table and its validation (\<^verbatim>\<open>utils.py\<close>)\<close>

text \<open>
  The data frame that \<^verbatim>\<open>pd.read_csv\<close> returns is modelled by its header and its rows.
  A row holds the four columns that \<^verbatim>\<open>read_scfa_inputs\<close> reads. The condition column
  holds strings, or integers when every name in the file is a number; the dose columns
  are numeric.
\<close>

datatype cell = Str string | IntC int

record dose_row =
  condition :: cell
  acetate_mmol_gDW_hr :: real
  propionate_mmol_gDW_hr :: real
  butyrate_mmol_gDW_hr :: real

record dose_table =
  columns :: "string list"
  rows :: "dose_row list"

text \<open>\<^verbatim>\<open>str\<close> of an integer: its decimal digits, with a minus sign when negative.\<close>

fun str_nat :: "nat \<Rightarrow> string" where
  "str_nat n =
     (if n < 10 then [''0123456789'' ! n]
      else str_nat (n div 10) @ [''0123456789'' ! (n mod 10)])"

declare str_nat.simps [simp del]

definition str_int :: "int \<Rightarrow> string" where
  "str_int i = (if i < 0 then ''-'' @ str_nat (nat (- i)) else str_nat (nat i))"

text \<open>\<^verbatim>\<open>df["condition"].astype(str)\<close> on one cell.\<close>

fun astype_str :: "cell \<Rightarrow> string" where
  "astype_str (Str s) = s"
| "astype_str (IntC i) = str_int i"

definition needed :: "string list" where
  "needed = [''condition'', ''acetate_mmol_gDW_hr'', ''propionate_mmol_gDW_hr'',
             ''butyrate_mmol_gDW_hr'']"

text \<open>The three dose columns, in the order in which the sign check visits them.\<close>

definition dose_columns :: "(string \<times> (dose_row \<Rightarrow> real)) list" where
  "dose_columns = [(''acetate_mmol_gDW_hr'', acetate_mmol_gDW_hr),
                   (''propionate_mmol_gDW_hr'', propionate_mmol_gDW_hr),
                   (''butyrate_mmol_gDW_hr'', butyrate_mmol_gDW_hr)]"

text \<open>
  \<^verbatim>\<open>for c in [...]: if (df[c] < 0).any(): raise ValueError(f"Negative values in {c}")\<close>:
  the name of the first dose column with a negative entry, if there is one.
\<close>

fun first_negative :: "(string \<times> (dose_row \<Rightarrow> real)) list \<Rightarrow> dose_row list \<Rightarrow> string option" where
  "first_negative [] rs = None"
| "first_negative ((c, col) # cs) rs =
     (if list_ex (\<lambda>r. col r < 0) rs then Some c else first_negative cs rs)"

text \<open>
  \<^verbatim>\<open>df.sort_values("condition")\<close> on the rows. The call leaves the sorting algorithm at
  the default of the library, its quicksort, which is not a stable sort: it sorts an
  array of at most 16 entries by insertion, which keeps rows of the same name in their
  order of appearance, and partitions a longer one, which may reorder such rows. What
  the library returns for a longer table enters as the function \<open>quicksort\<close>.
\<close>

definition sort_values :: "(dose_row list \<Rightarrow> dose_row list) \<Rightarrow> dose_row list \<Rightarrow> dose_row list" where
  "sort_values quicksort rs =
     (if length rs \<le> 16 then sort_key (\<lambda>r. astype_str (condition r)) rs else quicksort rs)"

text \<open>
  What the library promises of its sort: the rows it returns are the rows it got, in
  ascending order of their condition name.
\<close>

definition sorts_by_condition :: "(dose_row list \<Rightarrow> dose_row list) \<Rightarrow> bool" where
  "sorts_by_condition quicksort \<longleftrightarrow>
     (\<forall>rs. mset (quicksort rs) = mset rs \<and>
           sorted (map (\<lambda>r. astype_str (condition r)) (quicksort rs)))"

text \<open>
  \<^verbatim>\<open>read_scfa_inputs\<close>, from the data frame on. The mismatch error carries
  \<^verbatim>\<open>sorted(expected_conditions)\<close> and \<^verbatim>\<open>sorted(df['condition'].unique())\<close>. A row keeps
  a field for each of the four columns; when a column is absent from the header the
  function raises before it reads any row.
\<close>

definition read_scfa_inputs ::
  "(dose_row list \<Rightarrow> dose_row list) \<Rightarrow> dose_table \<Rightarrow> string list \<Rightarrow> error + dose_table" where
  "read_scfa_inputs quicksort df expected_conditions =
     (let missing = set needed - set (columns df)
      in if missing \<noteq> {} then Inl (ValueError (MissingColumns missing))
         else
           (let df1 = df\<lparr>rows := map (\<lambda>r. r\<lparr>condition := Str (astype_str (condition r))\<rparr>)
                                    (rows df)\<rparr>;
                conds = map (\<lambda>r. astype_str (condition r)) (rows df1)
            in if set conds \<noteq> set expected_conditions
               then Inl (ValueError (ConditionsMismatch (sort expected_conditions)
                                                      (sort (remdups conds))))
               else
                 (case first_negative dose_columns (rows df1) of
                    Some c \<Rightarrow> Inl (ValueError (NegativeValues c))
                  | None \<Rightarrow> Inr (df1\<lparr>rows := sort_values quicksort (rows df1)\<rparr>))))"

text \<open>The condition names of a table, as strings.\<close>

definition condition_names :: "dose_table \<Rightarrow> string list" where
  "condition_names df = map (\<lambda>r. astype_str (condition r)) (rows df)"

text \<open>A row after \<^verbatim>\<open>df["condition"] = df["condition"].astype(str)\<close>.\<close>

definition canonical :: "dose_row \<Rightarrow> dose_row" where
  "canonical r = r\<lparr>condition := Str (astype_str (condition r))\<rparr>"

section \<open>The simulation runner (\<^verbatim>\<open>02_run_simulation.py\<close>)\<close>

text \<open>
  What \<^verbatim>\<open>model.optimize()\<close> returns: an objective value, which may be absent, and the
  fluxes by reaction identifier. The solver itself is outside the repository; it enters
  as a function \<open>opt\<close> from the objective reaction and the bounds of the network to a
  solution.
\<close>

record solution =
  objective_value :: "real option"
  fluxes :: "string \<rightharpoonup> real"

text \<open>A float that may be the missing-value marker \<^verbatim>\<open>float("nan")\<close>.\<close>

datatype pyfloat = Num real | NaN

record result =
  r_condition :: cell
  objective_id :: string
  r_objective_value :: real
  baseline_objective :: real
  objective_delta :: real
  objective_pct_change :: pyfloat
  glucose_flux :: "real option"
  oxygen_flux :: "real option"
  co2_flux :: real
  acetate_flux :: "real option"
  propionate_flux :: "real option"
  butyrate_flux :: "real option"
  pathway :: "(string \<times> pyfloat) list"

text \<open>\<^verbatim>\<open>float(sol.objective_value or 0)\<close>\<close>

definition objective_or_0 :: "solution \<Rightarrow> real" where
  "objective_or_0 sol = (case objective_value sol of None \<Rightarrow> 0 | Some v \<Rightarrow> v)"

text \<open>\<^verbatim>\<open>100 * delta / baseline_atpm if baseline_atpm else float("nan")\<close>\<close>

definition pct_change :: "real \<Rightarrow> real \<Rightarrow> pyfloat" where
  "pct_change delta baseline_atpm =
     (if baseline_atpm \<noteq> 0 then Num (100 * delta / baseline_atpm) else NaN)"

text \<open>The local function \<^verbatim>\<open>flux\<close> of \<^verbatim>\<open>main\<close>.\<close>

definition flux :: "solution \<Rightarrow> string option \<Rightarrow> real option" where
  "flux sol r =
     (case r of None \<Rightarrow> None
      | Some x \<Rightarrow> Some (case fluxes sol x of None \<Rightarrow> 0 | Some v \<Rightarrow> v))"

definition get_pathway_fluxes :: "network \<Rightarrow> solution \<Rightarrow> (string \<times> pyfloat) list" where
  "get_pathway_fluxes model sol =
     map (\<lambda>(x, label).
            (''pathway_'' @ x,
             if has_rxn model x
             then (case fluxes sol x of None \<Rightarrow> NaN | Some v \<Rightarrow> Num v)
             else NaN))
         PATHWAYS"

subsection \<open>The scope \<^verbatim>\<open>with model:\<close>\<close>

text \<open>
  Inside \<^verbatim>\<open>with model:\<close> every assignment to the bounds of a reaction records the
  bounds it replaces; leaving the scope replays the records, the latest first
  (the source: "context manager resets bounds after"). The state inside the scope is the
  network and the stack of records.
\<close>

type_synonym history = "(string \<times> real \<times> real) list"

definition set_bounds_ctx ::
  "string \<Rightarrow> real \<times> real \<Rightarrow> network \<times> history \<Rightarrow> network \<times> history" where
  "set_bounds_ctx x b ctx =
     (case find (\<lambda>r. rid r = x) (fst ctx) of
        None \<Rightarrow> ctx
      | Some r \<Rightarrow> (set_bounds x b (fst ctx), (x, bounds r) # snd ctx))"

definition context_exit :: "network \<times> history \<Rightarrow> network" where
  "context_exit ctx = fold (\<lambda>(x, b) m. set_bounds x b m) (snd ctx) (fst ctx)"

definition dose :: "scfa \<Rightarrow> dose_row \<Rightarrow> real" where
  "dose s row =
     (case s of acetate \<Rightarrow> acetate_mmol_gDW_hr row
      | propionate \<Rightarrow> propionate_mmol_gDW_hr row
      | butyrate \<Rightarrow> butyrate_mmol_gDW_hr row)"

text \<open>
  The inner loop of a condition:
  \<^verbatim>\<open>for scfa_name, dose in [...]: rxn = scfa_rxns.get(scfa_name);
    if rxn and dose > 0: rxn.bounds = (-dose, 0)\<close>
\<close>

definition apply_doses ::
  "(scfa \<Rightarrow> string option) \<Rightarrow> dose_row \<Rightarrow> network \<times> history \<Rightarrow> network \<times> history" where
  "apply_doses scfa_rxns row ctx =
     fold (\<lambda>(scfa_name, d) c.
             (case scfa_rxns scfa_name of
                None \<Rightarrow> c
              | Some rxn \<Rightarrow> if d > 0 then set_bounds_ctx rxn (- d, 0) c else c))
          [(acetate, dose acetate row), (propionate, dose propionate row),
           (butyrate, dose butyrate row)]
          ctx"

text \<open>
  The state that the loop over the conditions threads: the network, the number of
  optimizations run so far, and the result rows collected so far.
\<close>

record run_state =
  model_of :: network
  solves :: nat
  rows_out :: "result list"

text \<open>The resolved reactions that \<^verbatim>\<open>main\<close> computes once, before the loop.\<close>

record resolved =
  atpm :: string
  scfa_rxns :: "scfa \<Rightarrow> string option"
  rxn_glc :: "string option"
  rxn_o2 :: "string option"

text \<open>The body of \<^verbatim>\<open>for _, row in scfa_df.iterrows()\<close>.\<close>

definition run_condition ::
  "(string \<Rightarrow> network \<Rightarrow> solution) \<Rightarrow> resolved \<Rightarrow> real \<Rightarrow> dose_row \<Rightarrow> run_state \<Rightarrow> run_state" where
  "run_condition opt rs baseline_atpm row st =
     (let ctx = apply_doses (scfa_rxns rs) row (model_of st, []);
          sol = opt (atpm rs) (fst ctx);
          obj = objective_or_0 sol;
          delta = obj - baseline_atpm;
          pct = pct_change delta baseline_atpm;
          res = \<lparr>r_condition = condition row,
                 objective_id = atpm rs,
                 r_objective_value = obj,
                 baseline_objective = baseline_atpm,
                 objective_delta = delta,
                 objective_pct_change = pct,
                 glucose_flux = flux sol (rxn_glc rs),
                 oxygen_flux = flux sol (rxn_o2 rs),
                 co2_flux = (case fluxes sol ''EX_co2_e'' of None \<Rightarrow> 0 | Some v \<Rightarrow> v),
                 acetate_flux = flux sol (scfa_rxns rs acetate),
                 propionate_flux = flux sol (scfa_rxns rs propionate),
                 butyrate_flux = flux sol (scfa_rxns rs butyrate),
                 pathway = get_pathway_fluxes (fst ctx) sol\<rparr>
      in \<lparr>model_of = context_exit ctx, solves = Suc (solves st),
          rows_out = rows_out st @ [res]\<rparr>)"

definition run_conditions ::
  "(string \<Rightarrow> network \<Rightarrow> solution) \<Rightarrow> resolved \<Rightarrow> real \<Rightarrow> dose_row list \<Rightarrow> run_state \<Rightarrow> run_state" where
  "run_conditions opt rs baseline_atpm rws st = fold (run_condition opt rs baseline_atpm) rws st"

text \<open>The state in which \<^verbatim>\<open>main\<close> enters the loop: the baseline has been solved.\<close>

definition initial_state :: "network \<Rightarrow> run_state" where
  "initial_state m = \<lparr>model_of = m, solves = 1, rows_out = []\<rparr>"

text \<open>
  The result row of one condition when its body runs on the network \<open>m\<close> with nothing
  run before it.
\<close>

definition condition_result ::
  "(string \<Rightarrow> network \<Rightarrow> solution) \<Rightarrow> resolved \<Rightarrow> real \<Rightarrow> network \<Rightarrow> dose_row \<Rightarrow> result" where
  "condition_result opt rs baseline_atpm m row =
     last (rows_out (run_condition opt rs baseline_atpm row
                        \<lparr>model_of = m, solves = 0, rows_out = []\<rparr>))"

text \<open>
  One iteration of the inner loop of a condition, on the scope state and on a single
  reaction. \<open>apply_doses\<close> is the three iterations in the order acetate, propionate,
  butyrate.
\<close>

definition dose_step ::
  "(scfa \<Rightarrow> string option) \<Rightarrow> dose_row \<Rightarrow> scfa \<Rightarrow> network \<times> history \<Rightarrow> network \<times> history" where
  "dose_step sr row s c =
     (case sr s of None \<Rightarrow> c
      | Some rxn \<Rightarrow> if dose s row > 0 then set_bounds_ctx rxn (- dose s row, 0) c else c)"

definition with_dose :: "(scfa \<Rightarrow> string option) \<Rightarrow> dose_row \<Rightarrow> scfa \<Rightarrow> reaction \<Rightarrow> reaction" where
  "with_dose sr row s r =
     (if sr s = Some (rid r) \<and> dose s row > 0
      then r\<lparr>lower_bound := - dose s row, upper_bound := 0\<rparr> else r)"

text \<open>
  \<^verbatim>\<open>main\<close>, from the data frame of the canonical dose file, the expected conditions, the
  loaded network and the configuration on; \<open>opt\<close> is the solver and \<open>quicksort\<close> the
  sort of the library on long tables. It returns the result rows or the error that
  aborted the run, and the number of optimizations that were run.
\<close>

definition main ::
  "(string \<Rightarrow> network \<Rightarrow> solution) \<Rightarrow> (dose_row list \<Rightarrow> dose_row list) \<Rightarrow> dose_table
     \<Rightarrow> string list \<Rightarrow> network \<Rightarrow> host_simulation \<Rightarrow> (error + result list) \<times> nat" where
  "main opt quicksort df conditions model sim =
     (case read_scfa_inputs quicksort df conditions of
        Inl e \<Rightarrow> (Inl e, 0)
      | Inr scfa_df \<Rightarrow>
          (case setup_medium model sim of
             Inl e \<Rightarrow> (Inl e, 0)
           | Inr m \<Rightarrow>
               (case find_rxn m ATPM_IDS of
                  None \<Rightarrow> (Inl RuntimeError_no_ATPM, 0)
                | Some a \<Rightarrow>
                    (let m1 = set_bounds a (0, 500) m;
                         rs = \<lparr>atpm = a,
                               scfa_rxns = (\<lambda>name. find_rxn m1 (SCFA_RXN_IDS name)),
                               rxn_glc = find_rxn m1 GLUCOSE_IDS,
                               rxn_o2 = find_rxn m1 O2_IDS\<rparr>;
                         baseline_sol = opt a m1;
                         baseline_atpm = objective_or_0 baseline_sol;
                         st = run_conditions opt rs baseline_atpm (rows scfa_df)
                                (initial_state m1)
                     in (Inr (rows_out st), solves st)))))"


section \<open>Example inputs\<close>

definition example_model :: network where
  "example_model =
     [\<lparr>rid = ''EX_h2o_e'', lower_bound = - 1000, upper_bound = 1000\<rparr>,
      \<lparr>rid = ''EX_glc__D_e'', lower_bound = - 1000, upper_bound = 1000\<rparr>,
      \<lparr>rid = ''EX_ac_e'', lower_bound = - 1000, upper_bound = 1000\<rparr>,
      \<lparr>rid = ''EX_foo_e'', lower_bound = - 1000, upper_bound = 1000\<rparr>,
      \<lparr>rid = ''PYK'', lower_bound = - 1000, upper_bound = 1000\<rparr>,
      \<lparr>rid = ''PFK'', lower_bound = 0, upper_bound = 100\<rparr>,
      \<lparr>rid = ''ATPM'', lower_bound = 0, upper_bound = 1000\<rparr>]"

definition example_sim :: host_simulation where
  "example_sim = \<lparr>oxygen_uptake = Some 2, glucose_uptake = Some 1,
                    amino_acid_uptake = None, vitamin_uptake = Some 0.02\<rparr>"

text \<open>Dose tables: three conditions; numbered conditions; a negative dose; a repeated name.\<close>

definition example_doses :: dose_table where
  "example_doses = \<lparr>columns = needed,
     rows = [\<lparr>condition = Str ''Low'', acetate_mmol_gDW_hr = 1,
              propionate_mmol_gDW_hr = 0, butyrate_mmol_gDW_hr = 0.5\<rparr>,
             \<lparr>condition = Str ''Mid'', acetate_mmol_gDW_hr = 3,
              propionate_mmol_gDW_hr = 1, butyrate_mmol_gDW_hr = 1\<rparr>,
             \<lparr>condition = Str ''High'', acetate_mmol_gDW_hr = 6,
              propionate_mmol_gDW_hr = 2, butyrate_mmol_gDW_hr = 2\<rparr>]\<rparr>"

definition numbered_doses :: dose_table where
  "numbered_doses = \<lparr>columns = needed,
     rows = [\<lparr>condition = IntC 2, acetate_mmol_gDW_hr = 3,
              propionate_mmol_gDW_hr = 1, butyrate_mmol_gDW_hr = 1\<rparr>,
             \<lparr>condition = IntC 1, acetate_mmol_gDW_hr = 1,
              propionate_mmol_gDW_hr = 0, butyrate_mmol_gDW_hr = 0\<rparr>]\<rparr>"

definition numbered_sorted :: dose_table where
  "numbered_sorted = \<lparr>columns = needed,
     rows = [\<lparr>condition = Str ''1'', acetate_mmol_gDW_hr = 1,
              propionate_mmol_gDW_hr = 0, butyrate_mmol_gDW_hr = 0\<rparr>,
             \<lparr>condition = Str ''2'', acetate_mmol_gDW_hr = 3,
              propionate_mmol_gDW_hr = 1, butyrate_mmol_gDW_hr = 1\<rparr>]\<rparr>"

definition negative_doses :: dose_table where
  "negative_doses = \<lparr>columns = needed,
     rows = [\<lparr>condition = Str ''Low'', acetate_mmol_gDW_hr = 1,
              propionate_mmol_gDW_hr = 0, butyrate_mmol_gDW_hr = 0\<rparr>,
             \<lparr>condition = Str ''High'', acetate_mmol_gDW_hr = 5,
              propionate_mmol_gDW_hr = 2, butyrate_mmol_gDW_hr = - 1\<rparr>]\<rparr>"

definition dup_table :: dose_table where
  "dup_table = \<lparr>columns = needed,
     rows = [\<lparr>condition = Str ''Low'', acetate_mmol_gDW_hr = 1,
              propionate_mmol_gDW_hr = 0, butyrate_mmol_gDW_hr = 0\<rparr>,
             \<lparr>condition = Str ''High'', acetate_mmol_gDW_hr = 5,
              propionate_mmol_gDW_hr = 2, butyrate_mmol_gDW_hr = 1\<rparr>,
             \<lparr>condition = Str ''Low'', acetate_mmol_gDW_hr = 2,
              propionate_mmol_gDW_hr = 0, butyrate_mmol_gDW_hr = 0\<rparr>]\<rparr>"

text \<open>
  A stand-in for the solver, a resolution of the reactions against the example network,
  a network without an ATP maintenance reaction, a dose table that lacks a column, and
  a dose row without acetate.
\<close>

definition toy_opt :: "string \<Rightarrow> network \<Rightarrow> solution" where
  "toy_opt a m = \<lparr>objective_value = Some (sum_list (map (\<lambda>r. - lower_bound r) m)),
                  fluxes = map_of (map (\<lambda>r. (rid r, lower_bound r)) m)\<rparr>"

definition example_resolved :: resolved where
  "example_resolved = \<lparr>atpm = ''ATPM'',
                        scfa_rxns = (\<lambda>name. find_rxn example_model (SCFA_RXN_IDS name)),
                        rxn_glc = find_rxn example_model GLUCOSE_IDS,
                        rxn_o2 = find_rxn example_model O2_IDS\<rparr>"

definition model_without_ATPM :: network where
  "model_without_ATPM =
     [\<lparr>rid = ''EX_h2o_e'', lower_bound = - 1000, upper_bound = 1000\<rparr>,
      \<lparr>rid = ''EX_ac_e'', lower_bound = - 1000, upper_bound = 1000\<rparr>,
      \<lparr>rid = ''PYK'', lower_bound = - 1000, upper_bound = 1000\<rparr>]"

definition short_doses :: dose_table where
  "short_doses = \<lparr>columns = [''condition'', ''acetate_mmol_gDW_hr'', ''propionate_mmol_gDW_hr''],
     rows = [\<lparr>condition = Str ''Low'', acetate_mmol_gDW_hr = 1,
              propionate_mmol_gDW_hr = 0, butyrate_mmol_gDW_hr = 0\<rparr>]\<rparr>"


definition forced_flux_model :: network where
  "forced_flux_model =
     [\<lparr>rid = ''R1'', lower_bound = 600, upper_bound = 1000\<rparr>,
      \<lparr>rid = ''EX_foo_e'', lower_bound = - 1000, upper_bound = 1000\<rparr>]"

definition o2_model :: network where
  "o2_model =
     [\<lparr>rid = ''EX_o2_e'', lower_bound = - 1000, upper_bound = 1000\<rparr>,
      \<lparr>rid = ''PYK'', lower_bound = - 1000, upper_bound = 1000\<rparr>]"

text \<open>
  Two conditions under which no assignment of \<^verbatim>\<open>setup_medium\<close> is refused: an internal
  reaction can be capped when its bounds reach into \<open>[-500, 500]\<close>, and a boundary
  reaction can take the ammonium lower bound when its upper bound is not negative.
\<close>

definition cap_ok :: "reaction \<Rightarrow> bool" where
  "cap_ok r \<longleftrightarrow> is_boundary (rid r) \<or> (- 500 \<le> upper_bound r \<and> lower_bound r \<le> 500)"

definition open_ub :: "reaction \<Rightarrow> bool" where
  "open_ub r \<longleftrightarrow> \<not> is_boundary (rid r) \<or> 0 \<le> upper_bound r"

text \<open>The sort by insertion on tables of any length, as a stand-in for the library's.\<close>

definition insertion_sort :: "dose_row list \<Rightarrow> dose_row list" where
  "insertion_sort rs = sort_key (\<lambda>r. astype_str (condition r)) rs"

text \<open>
  A sort by condition name that is not stable (rows of the same name come out in the
  reverse of their order of appearance), and a table of 18 rows under one name.
\<close>

definition reversing_sort :: "dose_row list \<Rightarrow> dose_row list" where
  "reversing_sort rs = sort_key (\<lambda>r. astype_str (condition r)) (rev rs)"

definition replicate_row :: "real \<Rightarrow> dose_row" where
  "replicate_row a = \<lparr>condition = Str ''Low'', acetate_mmol_gDW_hr = a,
                       propionate_mmol_gDW_hr = 0, butyrate_mmol_gDW_hr = 0\<rparr>"

definition replicate_doses :: dose_table where
  "replicate_doses = \<lparr>columns = needed,
     rows = map replicate_row [1, 2, 3, 4, 5, 6, 7, 8, 9, 10, 11, 12, 13, 14, 15, 16, 17, 18]\<rparr>"

definition zero_acetate_row :: dose_row where
  "zero_acetate_row = \<lparr>condition = Str ''PropOnly'', acetate_mmol_gDW_hr = 0,
                        propionate_mmol_gDW_hr = 1, butyrate_mmol_gDW_hr = 0\<rparr>"

section \<open>Properties of the medium configuration\<close>

subsection \<open>What a step may change\<close>

lemma has_rxn_cong: "map rid m = map rid m' \<Longrightarrow> has_rxn m = has_rxn m'"
  by (simp add: has_rxn_def fun_eq_iff)

lemma find_rxn_cong: "map rid m = map rid m' \<Longrightarrow> find_rxn m cs = find_rxn m' cs"
  by (induction cs) (simp_all add: has_rxn_def)

lemma find_rxn_in: "find_rxn m cs = Some x \<Longrightarrow> x \<in> set cs \<and> has_rxn m x"
  by (induction cs) (auto split: if_splits)

lemma frame_refl: "frame xs m m"
  by (simp add: frame_def)

lemma frame_rid: "frame xs m m' \<Longrightarrow> map rid m' = map rid m"
  by (simp add: frame_def)

lemma frame_length: "frame xs m m' \<Longrightarrow> length m' = length m"
  by (metis frame_rid length_map)

lemma frame_nth: "frame xs m m' \<Longrightarrow> i < length m \<Longrightarrow> rid (m ! i) \<notin> set xs \<Longrightarrow> m' ! i = m ! i"
  by (simp add: frame_def)

lemma frame_mono: "frame xs m m' \<Longrightarrow> set xs \<subseteq> set ys \<Longrightarrow> frame ys m m'"
  by (auto simp: frame_def)

lemma frame_trans:
  assumes "frame xs m m'" and "frame ys m' m''"
  shows "frame (xs @ ys) m m''"
proof -
  have r: "map rid m'' = map rid m"
    using assms by (simp add: frame_def)
  have "m'' ! i = m ! i" if i: "i < length m" and out: "rid (m ! i) \<notin> set (xs @ ys)" for i
  proof -
    have i': "i < length m'"
      using i assms(1) by (simp add: frame_length)
    have a: "m' ! i = m ! i"
      using assms(1) i out by (simp add: frame_def)
    have "rid (m' ! i) \<notin> set ys"
      using out by (simp add: a)
    then have "m'' ! i = m' ! i"
      using assms(2) i' by (simp add: frame_def)
    with a show ?thesis by simp
  qed
  with r show ?thesis by (simp add: frame_def)
qed

lemma frame_Cons:
  assumes "map rid rs' = map rid rs" and "rid r' = rid r"
    and "\<And>i. i < length rs \<Longrightarrow> rid (rs ! i) \<notin> set xs \<Longrightarrow> rs' ! i = rs ! i"
    and "rid r \<notin> set xs \<Longrightarrow> r' = r"
  shows "frame xs (r # rs) (r' # rs')"
  unfolding frame_def
proof (intro conjI allI impI)
  show "map rid (r' # rs') = map rid (r # rs)"
    using assms(1,2) by simp
next
  fix i assume "i < length (r # rs)" and "rid ((r # rs) ! i) \<notin> set xs"
  then show "(r' # rs') ! i = (r # rs) ! i"
    using assms(3,4) by (cases i) simp_all
qed

lemma rid_assign_bounds: "assign_bounds b r = Inr r' \<Longrightarrow> rid r' = rid r"
  by (auto simp: assign_bounds_def split: if_splits)

lemma rid_assign_lower_bound: "assign_lower_bound v r = Inr r' \<Longrightarrow> rid r' = rid r"
  by (auto simp: assign_lower_bound_def split: if_splits)

lemma rid_assign_upper_bound: "assign_upper_bound v r = Inr r' \<Longrightarrow> rid r' = rid r"
  by (auto simp: assign_upper_bound_def split: if_splits)

lemma update_by_id_frame:
  assumes "\<And>r r'. f r = Inr r' \<Longrightarrow> rid r' = rid r"
    and "update_by_id x f m = Inr m'"
  shows "frame [x] m m'"
  using assms(2)
proof (induction m arbitrary: m')
  case Nil
  then show ?case by simp
next
  case (Cons r rs)
  show ?case
  proof (cases "rid r = x")
    case True
    with Cons.prems obtain r' where r': "f r = Inr r'" and m': "m' = r' # rs"
      by (auto split: sum.splits)
    have "rid r' = rid r" using r' by (rule assms(1))
    then show ?thesis
      unfolding m' using True by (intro frame_Cons) simp_all
  next
    case False
    with Cons.prems obtain rs' where rs': "update_by_id x f rs = Inr rs'" and m': "m' = r # rs'"
      by (auto split: sum.splits)
    have "frame [x] rs rs'" using rs' by (rule Cons.IH)
    then show ?thesis
      unfolding m' by (intro frame_Cons) (simp_all add: frame_def)
  qed
qed

lemma open_each_frame: "open_each xs b m = Inr m' \<Longrightarrow> frame xs m m'"
proof (induction xs arbitrary: m)
  case Nil
  then show ?case by (simp add: frame_refl)
next
  case (Cons x xs)
  show ?case
  proof (cases "has_rxn m x")
    case True
    with Cons.prems obtain m1 where m1: "update_by_id x (assign_bounds b) m = Inr m1"
      and rest: "open_each xs b m1 = Inr m'"
      by (auto split: sum.splits)
    have "frame [x] m m1"
      using rid_assign_bounds m1 by (rule update_by_id_frame)
    moreover have "frame xs m1 m'"
      using rest by (rule Cons.IH)
    ultimately have "frame ([x] @ xs) m m'"
      by (rule frame_trans)
    then show ?thesis by simp
  next
    case False
    with Cons.prems have "open_each xs b m = Inr m'" by simp
    then have "frame xs m m'" by (rule Cons.IH)
    then show ?thesis by (rule frame_mono) auto
  qed
qed

lemma open_items_frame: "open_items its f m = Inr m' \<Longrightarrow> frame (map fst its) m m'"
proof (induction its arbitrary: m)
  case Nil
  then show ?case by (simp add: frame_refl)
next
  case (Cons it its)
  obtain x ub where it: "it = (x, ub)" by (cases it)
  show ?case
  proof (cases "has_rxn m x")
    case True
    with Cons.prems it obtain m1 where m1: "update_by_id x (assign_bounds (f ub)) m = Inr m1"
      and rest: "open_items its f m1 = Inr m'"
      by (auto split: sum.splits)
    have "frame [x] m m1"
      using rid_assign_bounds m1 by (rule update_by_id_frame)
    moreover have "frame (map fst its) m1 m'"
      using rest by (rule Cons.IH)
    ultimately have "frame ([x] @ map fst its) m m'"
      by (rule frame_trans)
    then show ?thesis by (simp add: it)
  next
    case False
    with Cons.prems it have "open_items its f m = Inr m'" by simp
    then have "frame (map fst its) m m'" by (rule Cons.IH)
    then show ?thesis by (rule frame_mono) (auto simp: it)
  qed
qed

lemma open_resolved_frame:
  "open_resolved ids b m = Inr m' \<Longrightarrow>
     frame (case find_rxn m ids of None \<Rightarrow> [] | Some x \<Rightarrow> [x]) m m'"
proof (cases "find_rxn m ids")
  case None
  assume "open_resolved ids b m = Inr m'"
  with None show ?thesis by (simp add: open_resolved_def frame_refl)
next
  case (Some x)
  assume "open_resolved ids b m = Inr m'"
  with Some have "update_by_id x (assign_bounds b) m = Inr m'"
    by (simp add: open_resolved_def)
  with rid_assign_bounds have "frame [x] m m'"
    by (rule update_by_id_frame)
  with Some show ?thesis by simp
qed

lemma rid_cap_internal: "cap_internal r = Inr r' \<Longrightarrow> rid r' = rid r"
  by (auto simp: cap_internal_def assign_lower_bound_def assign_upper_bound_def
      split: if_splits sum.splits)

lemma cap_internal_boundary: "is_boundary (rid r) \<Longrightarrow> cap_internal r = Inr r"
  by (simp add: cap_internal_def)


lemma cap_all_nth:
  "cap_all m = Inr m' \<Longrightarrow>
     length m' = length m \<and> (\<forall>i < length m. cap_internal (m ! i) = Inr (m' ! i))"
proof (induction m arbitrary: m')
  case Nil
  then show ?case by simp
next
  case (Cons r rs)
  from Cons.prems obtain r' rs' where r': "cap_internal r = Inr r'"
    and rs': "cap_all rs = Inr rs'" and m': "m' = r' # rs'"
    by (auto split: sum.splits)
  from Cons.IH [OF rs'] have len: "length rs' = length rs"
    and nth: "\<forall>i < length rs. cap_internal (rs ! i) = Inr (rs' ! i)"
    by simp_all
  have "cap_internal ((r # rs) ! i) = Inr (m' ! i)" if "i < length (r # rs)" for i
    using that r' nth unfolding m' by (cases i) simp_all
  with len show ?case unfolding m' by simp
qed

lemma cap_all_rid: "cap_all m = Inr m' \<Longrightarrow> map rid m' = map rid m"
proof -
  assume c: "cap_all m = Inr m'"
  from cap_all_nth [OF c] have len: "length m' = length m"
    and nth: "\<forall>i < length m. cap_internal (m ! i) = Inr (m' ! i)"
    by simp_all
  show ?thesis
  proof (rule nth_equalityI)
    show "length (map rid m') = length (map rid m)" using len by simp
  next
    fix i assume "i < length (map rid m')"
    then have i: "i < length m" using len by simp
    with nth have "cap_internal (m ! i) = Inr (m' ! i)" by blast
    then have "rid (m' ! i) = rid (m ! i)" by (rule rid_cap_internal)
    then show "map rid m' ! i = map rid m ! i" using i len by simp
  qed
qed

lemma rid_close_boundary [simp]: "rid (close_boundary r) = rid r"
  by (simp add: close_boundary_def)


lemma setup_medium_steps:
  assumes "setup_medium model sim = Inr model'"
  obtains m1 m3 m4 m5 m6 o2 m7 glc m8 m9 where
    "cap_all model = Inr m1"
    "open_each FREE (- 1000, 1000) (map close_boundary m1) = Inr m3"
    "open_items IONS (\<lambda>ub. (- ub, 100)) m3 = Inr m4"
    "open_items SECRETION (\<lambda>ub. (0, ub)) m4 = Inr m5"
    "(if has_rxn m5 ''EX_nh4_e''
      then update_by_id ''EX_nh4_e'' (assign_lower_bound (- 0.5)) m5 else Inr m5) = Inr m6"
    "oxygen_uptake sim = Some o2"
    "open_resolved O2_IDS (- o2, 0) m6 = Inr m7"
    "glucose_uptake sim = Some glc"
    "open_resolved GLUCOSE_IDS (- glc, 0) m7 = Inr m8"
    "open_each ESSENTIAL_AA
       (- (case amino_acid_uptake sim of None \<Rightarrow> 0.01 | Some v \<Rightarrow> v), 0) m8 = Inr m9"
    "open_each VITAMINS
       (- (case vitamin_uptake sim of None \<Rightarrow> 0.01 | Some v \<Rightarrow> v), 0) m9 = Inr model'"
proof -
  from assms obtain m1 where s1: "cap_all model = Inr m1"
    by (cases "cap_all model") (simp_all add: setup_medium_def)
  from assms s1 obtain m3 where
    s3: "open_each FREE (- 1000, 1000) (map close_boundary m1) = Inr m3"
    by (cases "open_each FREE (- 1000, 1000) (map close_boundary m1)")
       (simp_all add: setup_medium_def Let_def)
  from assms s1 s3 obtain m4 where s4: "open_items IONS (\<lambda>ub. (- ub, 100)) m3 = Inr m4"
    by (cases "open_items IONS (\<lambda>ub. (- ub, 100)) m3")
       (simp_all add: setup_medium_def Let_def)
  from assms s1 s3 s4 obtain m5 where s5: "open_items SECRETION (\<lambda>ub. (0, ub)) m4 = Inr m5"
    by (cases "open_items SECRETION (\<lambda>ub. (0, ub)) m4")
       (simp_all add: setup_medium_def Let_def)
  let ?nh4 = "if has_rxn m5 ''EX_nh4_e''
      then update_by_id ''EX_nh4_e'' (assign_lower_bound (- 0.5)) m5 else Inr m5"
  from assms s1 s3 s4 s5 obtain m6 where s6: "?nh4 = Inr m6"
    by (cases ?nh4) (simp_all add: setup_medium_def Let_def)
  from assms s1 s3 s4 s5 s6 obtain o2 where o2: "oxygen_uptake sim = Some o2"
    by (cases "oxygen_uptake sim") (simp_all add: setup_medium_def Let_def)
  from assms s1 s3 s4 s5 s6 o2 obtain m7 where s7: "open_resolved O2_IDS (- o2, 0) m6 = Inr m7"
    by (cases "open_resolved O2_IDS (- o2, 0) m6") (simp_all add: setup_medium_def Let_def)
  from assms s1 s3 s4 s5 s6 o2 s7 obtain glc where glc: "glucose_uptake sim = Some glc"
    by (cases "glucose_uptake sim") (simp_all add: setup_medium_def Let_def)
  from assms s1 s3 s4 s5 s6 o2 s7 glc obtain m8 where
    s8: "open_resolved GLUCOSE_IDS (- glc, 0) m7 = Inr m8"
    by (cases "open_resolved GLUCOSE_IDS (- glc, 0) m7") (simp_all add: setup_medium_def Let_def)
  let ?aa = "open_each ESSENTIAL_AA
       (- (case amino_acid_uptake sim of None \<Rightarrow> 0.01 | Some v \<Rightarrow> v), 0) m8"
  from assms s1 s3 s4 s5 s6 o2 s7 glc s8 obtain m9 where s9: "?aa = Inr m9"
    by (cases ?aa) (simp_all add: setup_medium_def Let_def)
  from assms s1 s3 s4 s5 s6 o2 s7 glc s8 s9 have s10: "open_each VITAMINS
       (- (case vitamin_uptake sim of None \<Rightarrow> 0.01 | Some v \<Rightarrow> v), 0) m9 = Inr model'"
    by (simp add: setup_medium_def Let_def)
  from s1 s3 s4 s5 s6 o2 s7 glc s8 s9 s10 that show ?thesis by blast
qed

lemma setup_medium_frame:
  assumes "setup_medium model sim = Inr model'"
  obtains m1 where "cap_all model = Inr m1"
    and "frame (reopened_ids model) (map close_boundary m1) model'"
proof -
  from assms obtain m1 m3 m4 m5 m6 o2 m7 glc m8 m9 where
    s1: "cap_all model = Inr m1"
    and s3: "open_each FREE (- 1000, 1000) (map close_boundary m1) = Inr m3"
    and s4: "open_items IONS (\<lambda>ub. (- ub, 100)) m3 = Inr m4"
    and s5: "open_items SECRETION (\<lambda>ub. (0, ub)) m4 = Inr m5"
    and s6: "(if has_rxn m5 ''EX_nh4_e''
      then update_by_id ''EX_nh4_e'' (assign_lower_bound (- 0.5)) m5 else Inr m5) = Inr m6"
    and s7: "open_resolved O2_IDS (- o2, 0) m6 = Inr m7"
    and s8: "open_resolved GLUCOSE_IDS (- glc, 0) m7 = Inr m8"
    and s9: "open_each ESSENTIAL_AA
       (- (case amino_acid_uptake sim of None \<Rightarrow> 0.01 | Some v \<Rightarrow> v), 0) m8 = Inr m9"
    and s10: "open_each VITAMINS
       (- (case vitamin_uptake sim of None \<Rightarrow> 0.01 | Some v \<Rightarrow> v), 0) m9 = Inr model'"
    by (rule setup_medium_steps)
  let ?m2 = "map close_boundary m1"
  let ?o2 = "case find_rxn model O2_IDS of None \<Rightarrow> [] | Some x \<Rightarrow> [x]"
  let ?glc = "case find_rxn model GLUCOSE_IDS of None \<Rightarrow> [] | Some x \<Rightarrow> [x]"
  have r2: "map rid ?m2 = map rid model"
    using cap_all_rid [OF s1] by (simp add: comp_def)
  have f3: "frame FREE ?m2 m3" using s3 by (rule open_each_frame)
  have f4: "frame (map fst IONS) m3 m4" using s4 by (rule open_items_frame)
  have f5: "frame (map fst SECRETION) m4 m5" using s5 by (rule open_items_frame)
  have f6: "frame [''EX_nh4_e''] m5 m6"
  proof (cases "has_rxn m5 ''EX_nh4_e''")
    case True
    with s6 have "update_by_id ''EX_nh4_e'' (assign_lower_bound (- 0.5)) m5 = Inr m6" by simp
    with rid_assign_lower_bound show ?thesis by (rule update_by_id_frame)
  next
    case False
    with s6 show ?thesis by (simp add: frame_refl)
  qed
  have g5: "frame (FREE @ map fst IONS @ map fst SECRETION) ?m2 m5"
    using f3 frame_trans [OF f4 f5] by (rule frame_trans)
  have g6: "frame ((FREE @ map fst IONS @ map fst SECRETION) @ [''EX_nh4_e'']) ?m2 m6"
    using g5 f6 by (rule frame_trans)
  have r6: "map rid m6 = map rid model"
    using frame_rid [OF g6] r2 by simp
  have "frame (case find_rxn m6 O2_IDS of None \<Rightarrow> [] | Some x \<Rightarrow> [x]) m6 m7"
    using s7 by (rule open_resolved_frame)
  then have f7: "frame ?o2 m6 m7"
    by (simp only: find_rxn_cong [OF r6])
  have r7: "map rid m7 = map rid model"
    using frame_rid [OF f7] r6 by simp
  have "frame (case find_rxn m7 GLUCOSE_IDS of None \<Rightarrow> [] | Some x \<Rightarrow> [x]) m7 m8"
    using s8 by (rule open_resolved_frame)
  then have f8: "frame ?glc m7 m8"
    by (simp only: find_rxn_cong [OF r7])
  have f9: "frame ESSENTIAL_AA m8 m9" using s9 by (rule open_each_frame)
  have f10: "frame VITAMINS m9 model'" using s10 by (rule open_each_frame)
  have g10: "frame (((FREE @ map fst IONS @ map fst SECRETION) @ [''EX_nh4_e''])
                     @ ?o2 @ ?glc @ ESSENTIAL_AA @ VITAMINS) ?m2 model'"
    using g6 frame_trans [OF f7 frame_trans [OF f8 frame_trans [OF f9 f10]]]
    by (rule frame_trans)
  have "''EX_nh4_e'' \<in> set (map fst SECRETION)"
    by (simp add: SECRETION_def)
  then have "set (((FREE @ map fst IONS @ map fst SECRETION) @ [''EX_nh4_e''])
                     @ ?o2 @ ?glc @ ESSENTIAL_AA @ VITAMINS) \<subseteq> set (reopened_ids model)"
    by (auto simp: reopened_ids_def)
  with g10 have "frame (reopened_ids model) ?m2 model'"
    by (rule frame_mono)
  with s1 that show ?thesis by blast
qed

lemma setup_medium_rid:
  assumes "setup_medium model sim = Inr model'"
  shows "map rid model' = map rid model"
proof -
  from assms obtain m1 where s1: "cap_all model = Inr m1"
    and f: "frame (reopened_ids model) (map close_boundary m1) model'"
    by (rule setup_medium_frame)
  from frame_rid [OF f] cap_all_rid [OF s1] show ?thesis
    by (simp add: comp_def)
qed



subsection \<open>When the configuration is refused, and when it is not\<close>

text \<open>
  An internal reaction with bounds \<open>(600, 1000)\<close> stops the capping loop at its upper
  bound, and a negative oxygen magnitude stops the oxygen step when the exchange is
  resolved. No assignment is refused when every internal reaction can be capped and
  the configured magnitudes are not negative.
\<close>

lemma setup_medium_raises_in_capping:
  "setup_medium forced_flux_model example_sim = Inl (ValueError (InvalidBounds 600 500))"
  by (simp add: setup_medium_def forced_flux_model_def cap_internal_def
      assign_lower_bound_def assign_upper_bound_def is_boundary_def startswith_def)

lemma setup_medium_raises_on_negative_uptake:
  "setup_medium o2_model (example_sim\<lparr>oxygen_uptake := Some (- 2)\<rparr>)
     = Inl (ValueError (InvalidBounds 2 0))"
  by (simp add: setup_medium_def o2_model_def example_sim_def
      cap_internal_def assign_lower_bound_def assign_upper_bound_def assign_bounds_def
      close_boundary_def is_boundary_def startswith_def has_rxn_def open_resolved_def
      FREE_def IONS_def SECRETION_def O2_IDS_def GLUCOSE_IDS_def ESSENTIAL_AA_def VITAMINS_def)


lemma cap_internal_succeeds: "cap_ok r \<Longrightarrow> \<exists>r'. cap_internal r = Inr r'"
  by (auto simp: cap_ok_def cap_internal_def assign_lower_bound_def assign_upper_bound_def)

lemma cap_all_succeeds: "\<forall>r \<in> set m. cap_ok r \<Longrightarrow> \<exists>m'. cap_all m = Inr m'"
proof (induction m)
  case Nil
  then show ?case by simp
next
  case (Cons r rs)
  from Cons.prems have "cap_ok r" by simp
  then obtain r' where r': "cap_internal r = Inr r'"
    using cap_internal_succeeds by blast
  from Cons.prems have "\<forall>r \<in> set rs. cap_ok r" by simp
  then obtain rs' where rs': "cap_all rs = Inr rs'"
    using Cons.IH by blast
  show ?case by (simp add: r' rs')
qed

lemma update_by_id_succeeds:
  assumes "has_rxn m x" and "\<And>r. r \<in> set m \<Longrightarrow> rid r = x \<Longrightarrow> \<exists>r'. f r = Inr r'"
  shows "\<exists>m'. update_by_id x f m = Inr m'"
  using assms
proof (induction m)
  case Nil
  then show ?case by (simp add: has_rxn_def)
next
  case (Cons r rs)
  show ?case
  proof (cases "rid r = x")
    case True
    have "\<exists>r'. f r = Inr r'"
      by (rule Cons.prems(2)) (simp_all add: True)
    then obtain r' where "f r = Inr r'" by blast
    with True show ?thesis by simp
  next
    case False
    with Cons.prems(1) have "has_rxn rs x" by (simp add: has_rxn_def)
    moreover have "\<And>r. r \<in> set rs \<Longrightarrow> rid r = x \<Longrightarrow> \<exists>r'. f r = Inr r'"
      using Cons.prems(2) by simp
    ultimately have "\<exists>rs'. update_by_id x f rs = Inr rs'"
      by (rule Cons.IH)
    then obtain rs' where "update_by_id x f rs = Inr rs'" by blast
    with False show ?thesis by simp
  qed
qed

lemma update_by_id_pres:
  assumes "update_by_id x f m = Inr m'" and "\<forall>r \<in> set m. Q r"
    and "\<And>r r'. Q r \<Longrightarrow> f r = Inr r' \<Longrightarrow> Q r'"
  shows "\<forall>r \<in> set m'. Q r"
  using assms(1,2)
proof (induction m arbitrary: m')
  case Nil
  then show ?case by simp
next
  case (Cons r rs)
  show ?case
  proof (cases "rid r = x")
    case True
    with Cons.prems(1) obtain r' where r': "f r = Inr r'" and m': "m' = r' # rs"
      by (auto split: sum.splits)
    have "Q r" using Cons.prems(2) by simp
    then have "Q r'" using r' by (rule assms(3))
    with Cons.prems(2) show ?thesis unfolding m' by simp
  next
    case False
    with Cons.prems(1) obtain rs' where rs': "update_by_id x f rs = Inr rs'" and m': "m' = r # rs'"
      by (auto split: sum.splits)
    from Cons.prems(2) have "\<forall>r \<in> set rs. Q r" by simp
    with rs' have "\<forall>r \<in> set rs'. Q r" by (rule Cons.IH)
    with Cons.prems(2) show ?thesis unfolding m' by simp
  qed
qed

lemma assign_bounds_succeeds: "fst b \<le> snd b \<Longrightarrow> \<exists>r'. assign_bounds b r = Inr r'"
  by (simp add: assign_bounds_def)

lemma assign_bounds_open_ub:
  "0 \<le> snd b \<Longrightarrow> open_ub r \<Longrightarrow> assign_bounds b r = Inr r' \<Longrightarrow> open_ub r'"
  by (auto simp: assign_bounds_def open_ub_def split: if_splits)

lemma open_each_succeeds:
  assumes "fst b \<le> snd b" and "0 \<le> snd b" and "\<forall>r \<in> set m. open_ub r"
  shows "\<exists>m'. open_each xs b m = Inr m' \<and> (\<forall>r \<in> set m'. open_ub r)"
  using assms(3)
proof (induction xs arbitrary: m)
  case Nil
  then show ?case by simp
next
  case (Cons x xs)
  show ?case
  proof (cases "has_rxn m x")
    case True
    have "\<exists>m1. update_by_id x (assign_bounds b) m = Inr m1"
      using True
    proof (rule update_by_id_succeeds)
      fix r show "\<exists>r'. assign_bounds b r = Inr r'"
        using assms(1) by (rule assign_bounds_succeeds)
    qed
    then obtain m1 where m1: "update_by_id x (assign_bounds b) m = Inr m1"
      by blast
    have "\<forall>r \<in> set m1. open_ub r"
      using m1 Cons.prems
    proof (rule update_by_id_pres)
      fix r r' assume "open_ub r" "assign_bounds b r = Inr r'"
      with assms(2) show "open_ub r'" by (rule assign_bounds_open_ub)
    qed
    then have "\<exists>m'. open_each xs b m1 = Inr m' \<and> (\<forall>r \<in> set m'. open_ub r)"
      by (rule Cons.IH)
    then show ?thesis by (simp add: True m1)
  next
    case False
    have "\<exists>m'. open_each xs b m = Inr m' \<and> (\<forall>r \<in> set m'. open_ub r)"
      using Cons.prems by (rule Cons.IH)
    then show ?thesis by (simp add: False)
  qed
qed

lemma open_items_succeeds:
  assumes "\<forall>(x, ub) \<in> set its. fst (f ub) \<le> snd (f ub) \<and> 0 \<le> snd (f ub)"
    and "\<forall>r \<in> set m. open_ub r"
  shows "\<exists>m'. open_items its f m = Inr m' \<and> (\<forall>r \<in> set m'. open_ub r)"
  using assms
proof (induction its arbitrary: m)
  case Nil
  then show ?case by simp
next
  case (Cons it its)
  obtain x ub where it: "it = (x, ub)" by (cases it)
  from Cons.prems(1) it have b: "fst (f ub) \<le> snd (f ub)" "0 \<le> snd (f ub)"
    and rest: "\<forall>(x, ub) \<in> set its. fst (f ub) \<le> snd (f ub) \<and> 0 \<le> snd (f ub)"
    by simp_all
  show ?case
  proof (cases "has_rxn m x")
    case True
    have "\<exists>m1. update_by_id x (assign_bounds (f ub)) m = Inr m1"
      using True
    proof (rule update_by_id_succeeds)
      fix r show "\<exists>r'. assign_bounds (f ub) r = Inr r'"
        using b(1) by (rule assign_bounds_succeeds)
    qed
    then obtain m1 where m1: "update_by_id x (assign_bounds (f ub)) m = Inr m1"
      by blast
    have "\<forall>r \<in> set m1. open_ub r"
      using m1 Cons.prems(2)
    proof (rule update_by_id_pres)
      fix r r' assume "open_ub r" "assign_bounds (f ub) r = Inr r'"
      with b(2) show "open_ub r'" by (rule assign_bounds_open_ub)
    qed
    with rest have "\<exists>m'. open_items its f m1 = Inr m' \<and> (\<forall>r \<in> set m'. open_ub r)"
      by (rule Cons.IH)
    then show ?thesis by (simp add: it True m1)
  next
    case False
    have "\<exists>m'. open_items its f m = Inr m' \<and> (\<forall>r \<in> set m'. open_ub r)"
      using rest Cons.prems(2) by (rule Cons.IH)
    then show ?thesis by (simp add: it False)
  qed
qed

lemma open_resolved_succeeds:
  assumes "fst b \<le> snd b"
  shows "\<exists>m'. open_resolved ids b m = Inr m'"
proof (cases "find_rxn m ids")
  case None
  then show ?thesis by (simp add: open_resolved_def)
next
  case (Some x)
  then have "has_rxn m x" by (simp add: find_rxn_in)
  then have "\<exists>m'. update_by_id x (assign_bounds b) m = Inr m'"
  proof (rule update_by_id_succeeds)
    fix r show "\<exists>r'. assign_bounds b r = Inr r'"
      using assms by (rule assign_bounds_succeeds)
  qed
  with Some show ?thesis by (simp add: open_resolved_def)
qed

lemma open_each_succeeds_plain:
  assumes "fst b \<le> snd b"
  shows "\<exists>m'. open_each xs b m = Inr m'"
proof (induction xs arbitrary: m)
  case Nil
  then show ?case by simp
next
  case (Cons x xs)
  show ?case
  proof (cases "has_rxn m x")
    case True
    have "\<exists>m1. update_by_id x (assign_bounds b) m = Inr m1"
      using True
    proof (rule update_by_id_succeeds)
      fix r show "\<exists>r'. assign_bounds b r = Inr r'"
        using assms by (rule assign_bounds_succeeds)
    qed
    then obtain m1 where m1: "update_by_id x (assign_bounds b) m = Inr m1"
      by blast
    have "\<exists>m'. open_each xs b m1 = Inr m'" by (rule Cons.IH)
    then show ?thesis by (simp add: True m1)
  next
    case False
    have "\<exists>m'. open_each xs b m = Inr m'" by (rule Cons.IH)
    then show ?thesis by (simp add: False)
  qed
qed

lemma open_ub_closed: "\<forall>r \<in> set (map close_boundary m). open_ub r"
  by (auto simp: open_ub_def close_boundary_def)

lemma setup_medium_succeeds:
  assumes cap: "\<forall>r \<in> set model. cap_ok r"
    and o2: "oxygen_uptake sim = Some o2" "0 \<le> o2"
    and glc: "glucose_uptake sim = Some glc" "0 \<le> glc"
    and aa: "\<forall>v. amino_acid_uptake sim = Some v \<longrightarrow> 0 \<le> v"
    and vit: "\<forall>v. vitamin_uptake sim = Some v \<longrightarrow> 0 \<le> v"
  shows "\<exists>model'. setup_medium model sim = Inr model'"
proof -
  from cap obtain m1 where s1: "cap_all model = Inr m1"
    using cap_all_succeeds by blast
  have "\<exists>m'. open_each FREE (- 1000, 1000) (map close_boundary m1) = Inr m' \<and>
          (\<forall>r \<in> set m'. open_ub r)"
    by (rule open_each_succeeds) (simp_all add: open_ub_closed)
  then obtain m3 where s3: "open_each FREE (- 1000, 1000) (map close_boundary m1) = Inr m3"
    and u3: "\<forall>r \<in> set m3. open_ub r"
    by blast
  have c4: "\<forall>(x, ub) \<in> set IONS. fst (- ub, 100::real) \<le> snd (- ub, 100::real) \<and>
              0 \<le> snd (- ub, 100::real)"
    by (simp add: IONS_def)
  have "\<exists>m'. open_items IONS (\<lambda>ub. (- ub, 100)) m3 = Inr m' \<and> (\<forall>r \<in> set m'. open_ub r)"
    using c4 u3 by (rule open_items_succeeds [where f = "\<lambda>ub. (- ub, 100)"])
  then obtain m4 where s4: "open_items IONS (\<lambda>ub. (- ub, 100)) m3 = Inr m4"
    and u4: "\<forall>r \<in> set m4. open_ub r"
    by blast
  have c5: "\<forall>(x, ub) \<in> set SECRETION. fst (0::real, ub) \<le> snd (0::real, ub) \<and>
              0 \<le> snd (0::real, ub)"
    by (simp add: SECRETION_def)
  have "\<exists>m'. open_items SECRETION (\<lambda>ub. (0, ub)) m4 = Inr m' \<and> (\<forall>r \<in> set m'. open_ub r)"
    using c5 u4 by (rule open_items_succeeds [where f = "\<lambda>ub. (0, ub)"])
  then obtain m5 where s5: "open_items SECRETION (\<lambda>ub. (0, ub)) m4 = Inr m5"
    and u5: "\<forall>r \<in> set m5. open_ub r"
    by blast
  have nh4: "is_boundary ''EX_nh4_e''"
    by (simp add: is_boundary_def startswith_def)
  have "\<exists>m6. (if has_rxn m5 ''EX_nh4_e''
      then update_by_id ''EX_nh4_e'' (assign_lower_bound (- 0.5)) m5 else Inr m5) = Inr m6"
  proof (cases "has_rxn m5 ''EX_nh4_e''")
    case True
    then have "\<exists>m6. update_by_id ''EX_nh4_e'' (assign_lower_bound (- 0.5)) m5 = Inr m6"
    proof (rule update_by_id_succeeds)
      fix r assume r: "r \<in> set m5" "rid r = ''EX_nh4_e''"
      from u5 r(1) have "open_ub r" by blast
      with r(2) nh4 have "0 \<le> upper_bound r" by (simp add: open_ub_def)
      then show "\<exists>r'. assign_lower_bound (- 0.5) r = Inr r'"
        by (simp add: assign_lower_bound_def)
    qed
    then show ?thesis by (simp add: True)
  next
    case False
    then show ?thesis by simp
  qed
  then obtain m6 where s6: "(if has_rxn m5 ''EX_nh4_e''
      then update_by_id ''EX_nh4_e'' (assign_lower_bound (- 0.5)) m5 else Inr m5) = Inr m6"
    by blast
  have "\<exists>m'. open_resolved O2_IDS (- o2, 0) m6 = Inr m'"
    by (rule open_resolved_succeeds) (simp add: o2(2))
  then obtain m7 where s7: "open_resolved O2_IDS (- o2, 0) m6 = Inr m7"
    by blast
  have "\<exists>m'. open_resolved GLUCOSE_IDS (- glc, 0) m7 = Inr m'"
    by (rule open_resolved_succeeds) (simp add: glc(2))
  then obtain m8 where s8: "open_resolved GLUCOSE_IDS (- glc, 0) m7 = Inr m8"
    by blast
  define av where "av = (case amino_acid_uptake sim of None \<Rightarrow> 0.01 | Some v \<Rightarrow> v)"
  define vv where "vv = (case vitamin_uptake sim of None \<Rightarrow> 0.01 | Some v \<Rightarrow> v)"
  have a0: "0 \<le> av" using aa by (simp add: av_def split: option.splits)
  have v0: "0 \<le> vv" using vit by (simp add: vv_def split: option.splits)
  have "\<exists>m'. open_each ESSENTIAL_AA (- av, 0) m8 = Inr m'"
    by (rule open_each_succeeds_plain) (simp add: a0)
  then obtain m9 where s9: "open_each ESSENTIAL_AA (- av, 0) m8 = Inr m9"
    by blast
  have "\<exists>m'. open_each VITAMINS (- vv, 0) m9 = Inr m'"
    by (rule open_each_succeeds_plain) (simp add: v0)
  then obtain m10 where s10: "open_each VITAMINS (- vv, 0) m9 = Inr m10"
    by blast
  have "setup_medium model sim = Inr m10"
    unfolding setup_medium_def Let_def av_def [symmetric] vv_def [symmetric]
    by (simp only: s1 s3 s4 s5 s6 o2(1) s7 glc(1) s8 s9 s10 sum.case option.case)
  then show ?thesis by blast
qed


subsection \<open>The closed baseline and the cap\<close>







section \<open>Properties of the dose validation\<close>

lemma canonical_idem [simp]: "canonical (canonical r) = canonical r"
  by (simp add: canonical_def)

lemma name_canonical [simp]: "astype_str (condition (canonical r)) = astype_str (condition r)"
  by (simp add: canonical_def)

lemma first_negative_set:
  "set rs = set rs' \<Longrightarrow> first_negative cs rs = first_negative cs rs'"
  by (induction cs rs rule: first_negative.induct) (simp_all add: list_ex_iff)

lemma first_negative_canonical:
  "first_negative dose_columns (map canonical rs) = first_negative dose_columns rs"
  by (simp add: dose_columns_def list_ex_iff canonical_def)

lemma first_negative_Some:
  "first_negative cs rs = Some c \<Longrightarrow> \<exists>col. (c, col) \<in> set cs \<and> (\<exists>r \<in> set rs. col r < 0)"
  by (induction cs rs rule: first_negative.induct) (auto simp: list_ex_iff split: if_splits)

lemma first_negative_None:
  "first_negative cs rs = None \<Longrightarrow> (c, col) \<in> set cs \<Longrightarrow> r \<in> set rs \<Longrightarrow> \<not> col r < 0"
  by (induction cs rs rule: first_negative.induct) (auto simp: list_ex_iff split: if_splits)

text \<open>The function in terms of its three checks.\<close>

lemma read_scfa_inputs_unfold:
  "read_scfa_inputs quicksort df expected =
     (if \<not> set needed \<subseteq> set (columns df)
      then Inl (ValueError (MissingColumns (set needed - set (columns df))))
      else if set (condition_names df) \<noteq> set expected
      then Inl (ValueError (ConditionsMismatch (sort expected)
                                              (sort (remdups (condition_names df)))))
      else (case first_negative dose_columns (rows df) of
              Some c \<Rightarrow> Inl (ValueError (NegativeValues c))
            | None \<Rightarrow> Inr (df\<lparr>rows := sort_values quicksort (map canonical (rows df))\<rparr>)))"
proof -
  have c: "(\<lambda>r. r\<lparr>condition := Str (astype_str (condition r))\<rparr>) = canonical"
    by (simp add: canonical_def fun_eq_iff)
  have r1: "rows (df\<lparr>rows := map canonical (rows df)\<rparr>) = map canonical (rows df)"
    by simp
  have n: "map (\<lambda>r. astype_str (condition r)) (map canonical (rows df)) = condition_names df"
    by (simp add: condition_names_def comp_def)
  have m: "(set needed - set (columns df) \<noteq> {}) = (\<not> set needed \<subseteq> set (columns df))"
    by auto
  have u: "\<And>X. df\<lparr>rows := map canonical (rows df), rows := X\<rparr> = df\<lparr>rows := X\<rparr>"
    by simp
  show ?thesis
    unfolding read_scfa_inputs_def Let_def c r1 n m first_negative_canonical u
    by (rule refl)
qed

text \<open>
  Claim C4, amended. A dose table that has the four required columns and whose set of
  condition names differs from the expected set is rejected: \<^verbatim>\<open>read_scfa_inputs\<close>
  raises the mismatch error, which carries the expected names and the received names,
  each sorted.
\<close>


theorem read_scfa_inputs_condition_mismatch:
  assumes "set needed \<subseteq> set (columns df)"
    and "set (condition_names df) \<noteq> set expected"
  shows "\<exists>exp got. read_scfa_inputs quicksort df expected = Inl (ValueError (ConditionsMismatch exp got)) \<and>
           set exp = set expected \<and> sorted exp \<and>
           set got = set (condition_names df) \<and> sorted got \<and> distinct got"
  using assms by (simp add: read_scfa_inputs_unfold)

theorem read_scfa_inputs_condition_mismatch_witness:
  "set needed \<subseteq> set (columns example_doses) \<and>
   set (condition_names example_doses) \<noteq> set [''Low'', ''Mid'', ''High'', ''VeryHigh''] \<and>
   (\<exists>exp got. read_scfa_inputs insertion_sort example_doses [''Low'', ''Mid'', ''High'', ''VeryHigh'']
                 = Inl (ValueError (ConditionsMismatch exp got)) \<and>
              set exp = set [''Low'', ''Mid'', ''High'', ''VeryHigh''] \<and> sorted exp \<and>
              set got = set (condition_names example_doses) \<and> sorted got \<and> distinct got)"
proof -
  have h1: "set needed \<subseteq> set (columns example_doses)"
    by (simp add: example_doses_def)
  have "''VeryHigh'' \<notin> set (condition_names example_doses)"
    by (simp add: example_doses_def condition_names_def)
  then have h2: "set (condition_names example_doses) \<noteq> set [''Low'', ''Mid'', ''High'', ''VeryHigh'']"
    by auto
  from h1 h2 read_scfa_inputs_condition_mismatch [OF h1 h2] show ?thesis
    by blast
qed

text \<open>
  Claim C4 as stated, for every table whose condition set differs, fails on a table
  that also lacks a required column: the column check comes first, and its error
  reports the missing columns, not the two sets of names.
\<close>

theorem read_scfa_inputs_mismatch_missing_column:
  "set (condition_names short_doses) \<noteq> set [''High'', ''Low''] \<and>
   read_scfa_inputs insertion_sort short_doses [''High'', ''Low'']
     = Inl (ValueError (MissingColumns {''butyrate_mmol_gDW_hr''}))"
proof -
  have "''High'' \<notin> set (condition_names short_doses)"
    by (simp add: short_doses_def condition_names_def)
  then have a: "set (condition_names short_doses) \<noteq> set [''High'', ''Low'']"
    by auto
  have "set needed - set (columns short_doses) = {''butyrate_mmol_gDW_hr''}"
    by (auto simp: needed_def short_doses_def)
  then have b: "read_scfa_inputs insertion_sort short_doses [''High'', ''Low'']
     = Inl (ValueError (MissingColumns {''butyrate_mmol_gDW_hr''}))"
    by (simp add: read_scfa_inputs_def Let_def)
  from a b show ?thesis by blast
qed

text \<open>
  Claim C5. A dose table that has the required columns and the expected condition set
  and a negative entry in a dose column is rejected: \<^verbatim>\<open>read_scfa_inputs\<close> raises the
  error that names a dose column with a negative entry (the first one in the order
  acetate, propionate, butyrate), and returns no table.
\<close>

theorem read_scfa_inputs_negative:
  assumes "set needed \<subseteq> set (columns df)"
    and "set (condition_names df) = set expected"
    and "r \<in> set (rows df)"
    and "acetate_mmol_gDW_hr r < 0 \<or> propionate_mmol_gDW_hr r < 0 \<or> butyrate_mmol_gDW_hr r < 0"
  shows "\<exists>c col. read_scfa_inputs quicksort df expected = Inl (ValueError (NegativeValues c)) \<and>
           (c, col) \<in> set dose_columns \<and> (\<exists>r' \<in> set (rows df). col r' < 0)"
proof (cases "first_negative dose_columns (rows df)")
  case None
  have "\<not> acetate_mmol_gDW_hr r < 0"
    using first_negative_None [OF None, where c = "''acetate_mmol_gDW_hr''"
        and col = acetate_mmol_gDW_hr and r = r] assms(3)
    by (simp add: dose_columns_def)
  moreover have "\<not> propionate_mmol_gDW_hr r < 0"
    using first_negative_None [OF None, where c = "''propionate_mmol_gDW_hr''"
        and col = propionate_mmol_gDW_hr and r = r] assms(3)
    by (simp add: dose_columns_def)
  moreover have "\<not> butyrate_mmol_gDW_hr r < 0"
    using first_negative_None [OF None, where c = "''butyrate_mmol_gDW_hr''"
        and col = butyrate_mmol_gDW_hr and r = r] assms(3)
    by (simp add: dose_columns_def)
  ultimately show ?thesis
    using assms(4) by blast
next
  case (Some c)
  from first_negative_Some [OF Some]
  obtain col where col: "(c, col) \<in> set dose_columns" "\<exists>r' \<in> set (rows df). col r' < 0"
    by blast
  have "read_scfa_inputs quicksort df expected = Inl (ValueError (NegativeValues c))"
    using assms(1,2) Some by (simp add: read_scfa_inputs_unfold)
  with col show ?thesis by blast
qed

theorem read_scfa_inputs_negative_witness:
  "set needed \<subseteq> set (columns negative_doses) \<and>
   set (condition_names negative_doses) = set [''High'', ''Low''] \<and>
   rows negative_doses ! 1 \<in> set (rows negative_doses) \<and>
   butyrate_mmol_gDW_hr (rows negative_doses ! 1) < 0 \<and>
   (\<exists>c col. read_scfa_inputs insertion_sort negative_doses [''High'', ''Low'']
               = Inl (ValueError (NegativeValues c)) \<and>
            (c, col) \<in> set dose_columns \<and> (\<exists>r' \<in> set (rows negative_doses). col r' < 0))"
proof -
  have h1: "set needed \<subseteq> set (columns negative_doses)"
    by (simp add: negative_doses_def)
  have h2: "set (condition_names negative_doses) = set [''High'', ''Low'']"
    by (auto simp: negative_doses_def condition_names_def)
  have h3: "rows negative_doses ! 1 \<in> set (rows negative_doses)"
    by (simp add: negative_doses_def)
  have h4: "butyrate_mmol_gDW_hr (rows negative_doses ! 1) < 0"
    by (simp add: negative_doses_def)
  from h4 have h4': "acetate_mmol_gDW_hr (rows negative_doses ! 1) < 0 \<or>
      propionate_mmol_gDW_hr (rows negative_doses ! 1) < 0 \<or>
      butyrate_mmol_gDW_hr (rows negative_doses ! 1) < 0"
    by blast
  from h1 h2 h3 h4 read_scfa_inputs_negative [OF h1 h2 h3 h4'] show ?thesis
    by blast
qed

text \<open>
  Two sorted lists of rows with the same rows and pairwise distinct condition names
  are the same list.
\<close>

lemma sorted_rows_unique:
  assumes "mset ys = mset xs"
    and "sorted (map k xs)" and "sorted (map k ys)" and "distinct (map k xs)"
  shows "ys = xs"
proof -
  have m: "mset (map k ys) = mset (map k xs)"
    using assms(1) by simp
  then have d: "distinct (map k ys)"
    using assms(4) by (metis mset_eq_imp_distinct_iff)
  have s: "set (map k ys) = set (map k xs)"
    using m by (rule mset_eq_setD)
  have keys: "map k ys = map k xs"
    using assms(3) d assms(2) assms(4) s by (rule sorted_distinct_set_unique)
  have "set ys = set xs"
    using assms(1) by (rule mset_eq_setD)
  moreover have "inj_on k (set xs)"
    using assms(4) by (simp add: distinct_map)
  ultimately have "inj_on k (set ys \<union> set xs)"
    by simp
  with keys show ?thesis
    by (simp add: inj_on_map_eq_map)
qed

lemma sort_values_mset:
  "sorts_by_condition quicksort \<Longrightarrow> mset (sort_values quicksort rs) = mset rs"
  by (simp add: sort_values_def sorts_by_condition_def)

lemma sort_values_sorted:
  "sorts_by_condition quicksort \<Longrightarrow>
     sorted (map (\<lambda>r. astype_str (condition r)) (sort_values quicksort rs))"
  by (simp add: sort_values_def sorts_by_condition_def)

lemma sort_values_fixed:
  assumes qs: "sorts_by_condition quicksort"
    and srt: "sorted (map (\<lambda>r. astype_str (condition r)) rs)"
    and small: "length rs \<le> 16 \<or> distinct (map (\<lambda>r. astype_str (condition r)) rs)"
  shows "sort_values quicksort rs = rs"
proof (cases "length rs \<le> 16")
  case True
  then have "sort_values quicksort rs = sort_key (\<lambda>r. astype_str (condition r)) rs"
    by (simp add: sort_values_def)
  also have "\<dots> = rs"
    using srt by (rule sort_key_id_if_sorted)
  finally show ?thesis .
next
  case False
  with small have d: "distinct (map (\<lambda>r. astype_str (condition r)) rs)"
    by simp
  from False have "sort_values quicksort rs = quicksort rs"
    by (simp add: sort_values_def)
  moreover have "quicksort rs = rs"
  proof (rule sorted_rows_unique)
    show "mset (quicksort rs) = mset rs"
      using qs by (simp add: sorts_by_condition_def)
    show "sorted (map (\<lambda>r. astype_str (condition r)) (quicksort rs))"
      using qs by (simp add: sorts_by_condition_def)
  qed (rule srt, rule d)
  ultimately show ?thesis by simp
qed

text \<open>
  Claim C6, amended. Let the library sort by condition name (\<open>sorts_by_condition\<close>).
  For a dose table that passes validation and has at most 16 rows or pairwise distinct
  condition names, the table that \<^verbatim>\<open>read_scfa_inputs\<close> returns is sorted by condition
  name, has strings in its condition column, and is returned unchanged when it is
  validated again against the same expected conditions.
\<close>

theorem read_scfa_inputs_idempotent:
  assumes qs: "sorts_by_condition quicksort"
    and ok: "read_scfa_inputs quicksort df expected = Inr out"
    and small: "length (rows df) \<le> 16 \<or> distinct (condition_names df)"
  shows "read_scfa_inputs quicksort out expected = Inr out \<and>
         sorted (condition_names out) \<and>
         (\<forall>r \<in> set (rows out). condition r = Str (astype_str (condition r)))"
proof -
  let ?k = "\<lambda>r. astype_str (condition r)"
  from ok have cols: "set needed \<subseteq> set (columns df)"
    and conds: "set (condition_names df) = set expected"
    and neg: "first_negative dose_columns (rows df) = None"
    and out: "out = df\<lparr>rows := sort_values quicksort (map canonical (rows df))\<rparr>"
    by (auto simp: read_scfa_inputs_unfold split: if_splits option.splits)
  have rows_out: "rows out = sort_values quicksort (map canonical (rows df))"
    and cols_out: "columns out = columns df"
    by (simp_all add: out)
  have ms: "mset (rows out) = mset (map canonical (rows df))"
    unfolding rows_out using qs by (rule sort_values_mset)
  then have st: "set (rows out) = set (map canonical (rows df))"
    by (rule mset_eq_setD)
  have len: "length (rows out) = length (rows df)"
    using ms by (metis size_mset length_map)
  have canon: "canonical r = r" if "r \<in> set (rows out)" for r
    using that by (auto simp: st)
  then have map_canon: "map canonical (rows out) = rows out"
    by (simp add: map_idI)
  have srt: "sorted (map ?k (rows out))"
    unfolding rows_out using qs by (rule sort_values_sorted)
  have names_mset: "mset (map ?k (rows out)) = mset (condition_names df)"
  proof -
    have "mset (map ?k (rows out)) = mset (map ?k (map canonical (rows df)))"
      using ms by (metis mset_map)
    then show ?thesis
      by (simp add: condition_names_def comp_def)
  qed
  then have names: "set (condition_names out) = set expected"
    using conds by (metis condition_names_def mset_eq_setD)
  have "first_negative dose_columns (rows out)
          = first_negative dose_columns (map canonical (rows df))"
    using st by (rule first_negative_set)
  then have neg_out: "first_negative dose_columns (rows out) = None"
    by (simp add: first_negative_canonical neg)
  have small_out: "length (rows out) \<le> 16 \<or> distinct (map ?k (rows out))"
  proof (cases "length (rows df) \<le> 16")
    case True
    then show ?thesis by (simp add: len)
  next
    case False
    with small have "distinct (condition_names df)" by simp
    then have "distinct (map ?k (rows out))"
      using names_mset by (metis mset_eq_imp_distinct_iff)
    then show ?thesis by simp
  qed
  have "sort_values quicksort (map canonical (rows out)) = rows out"
    unfolding map_canon using qs srt small_out by (rule sort_values_fixed)
  then have "read_scfa_inputs quicksort out expected = Inr out"
    using cols names neg_out by (simp add: read_scfa_inputs_unfold cols_out)
  moreover have "sorted (condition_names out)"
    using srt by (simp add: condition_names_def)
  moreover have "\<forall>r \<in> set (rows out). condition r = Str (astype_str (condition r))"
  proof
    fix r assume "r \<in> set (rows out)"
    then have "canonical r = r" by (rule canon)
    then have "condition (canonical r) = condition r" by simp
    then show "condition r = Str (astype_str (condition r))"
      by (simp add: canonical_def)
  qed
  ultimately show ?thesis by blast
qed

lemma reversing_sort_sorts: "sorts_by_condition reversing_sort"
  by (simp add: sorts_by_condition_def reversing_sort_def)

theorem read_scfa_inputs_idempotent_witness:
  "sorts_by_condition reversing_sort \<and>
   read_scfa_inputs reversing_sort numbered_doses [''1'', ''2''] = Inr numbered_sorted \<and>
   length (rows numbered_doses) \<le> 16 \<and>
   read_scfa_inputs reversing_sort numbered_sorted [''1'', ''2''] = Inr numbered_sorted \<and>
   sorted (condition_names numbered_sorted) \<and>
   map condition (rows numbered_sorted) = [Str ''1'', Str ''2'']"
proof -
  have s: "{''2'', ''1''} = {''1'', ''2''}" by auto
  have c: "map condition (rows numbered_sorted) = [Str ''1'', Str ''2'']"
    by (simp add: numbered_sorted_def)
  have h: "read_scfa_inputs reversing_sort numbered_doses [''1'', ''2''] = Inr numbered_sorted"
    by (simp add: read_scfa_inputs_def sort_values_def numbered_doses_def numbered_sorted_def
        needed_def dose_columns_def Let_def str_int_def str_nat.simps s)
  have l: "length (rows numbered_doses) \<le> 16"
    by (simp add: numbered_doses_def)
  then have l': "length (rows numbered_doses) \<le> 16 \<or> distinct (condition_names numbered_doses)"
    by blast
  from reversing_sort_sorts h l c
    read_scfa_inputs_idempotent [OF reversing_sort_sorts h l']
  show ?thesis by blast
qed

text \<open>
  Claim C6 as stated, for every table that passes validation, fails on a table of 18
  rows under one condition name, with a sort that returns rows of the same name in the
  reverse of the order it got them in: the first pass reverses the rows and the second
  pass reverses them again, so that it returns the input table and not the table it
  was given.
\<close>

lemma sort_key_constant:
  "\<forall>r \<in> set rs. k r = c \<Longrightarrow> sort_key k rs = rs"
proof (rule sort_key_id_if_sorted)
  assume "\<forall>r \<in> set rs. k r = c"
  then have "map k rs = replicate (length rs) c"
    by (simp add: map_replicate_const [symmetric] cong: map_cong)
  then show "sorted (map k rs)"
    by (simp add: sorted_replicate)
qed

theorem read_scfa_inputs_not_idempotent_on_ties:
  "sorts_by_condition reversing_sort \<and>
   read_scfa_inputs reversing_sort replicate_doses [''Low'']
     = Inr (replicate_doses\<lparr>rows := rev (rows replicate_doses)\<rparr>) \<and>
   read_scfa_inputs reversing_sort (replicate_doses\<lparr>rows := rev (rows replicate_doses)\<rparr>) [''Low'']
     = Inr replicate_doses \<and>
   replicate_doses\<lparr>rows := rev (rows replicate_doses)\<rparr> \<noteq> replicate_doses"
proof -
  let ?k = "\<lambda>r. astype_str (condition r)"
  have low: "\<forall>r \<in> set (rows replicate_doses). ?k r = ''Low''"
    by (simp add: replicate_doses_def replicate_row_def)
  have canon: "map canonical (rows replicate_doses) = rows replicate_doses"
    by (simp add: replicate_doses_def replicate_row_def canonical_def)
  have "map canonical (rev (rows replicate_doses)) = rev (map canonical (rows replicate_doses))"
    by (simp add: rev_map)
  then have canon_rev: "map canonical (rev (rows replicate_doses)) = rev (rows replicate_doses)"
    by (simp only: canon)
  have len: "length (rows replicate_doses) = 18"
    by (simp add: replicate_doses_def)
  have r1: "reversing_sort (rows replicate_doses) = rev (rows replicate_doses)"
    unfolding reversing_sort_def using low by (intro sort_key_constant [where c = "''Low''"]) simp
  have r2: "reversing_sort (rev (rows replicate_doses)) = rows replicate_doses"
    unfolding reversing_sort_def rev_rev_ident using low
    by (intro sort_key_constant [where c = "''Low''"])
  have cols: "set needed \<subseteq> set (columns replicate_doses)"
    by (simp add: replicate_doses_def)
  have names: "set (condition_names replicate_doses) = set [''Low'']"
    by (simp add: condition_names_def replicate_doses_def replicate_row_def)
  have neg: "first_negative dose_columns (rows replicate_doses) = None"
    by (simp add: dose_columns_def replicate_doses_def replicate_row_def)
  have neg_rev: "first_negative dose_columns (rev (rows replicate_doses)) = None"
    using first_negative_set [of "rev (rows replicate_doses)" "rows replicate_doses" dose_columns]
      neg by simp
  have p1: "read_scfa_inputs reversing_sort replicate_doses [''Low'']
     = Inr (replicate_doses\<lparr>rows := rev (rows replicate_doses)\<rparr>)"
    using cols names neg
    by (simp add: read_scfa_inputs_unfold canon sort_values_def len r1)
  have names_rev: "set (condition_names (replicate_doses\<lparr>rows := rev (rows replicate_doses)\<rparr>))
                     = set [''Low'']"
    using names by (simp add: condition_names_def)
  have p2: "read_scfa_inputs reversing_sort (replicate_doses\<lparr>rows := rev (rows replicate_doses)\<rparr>)
              [''Low''] = Inr replicate_doses"
    using cols names_rev neg_rev
    by (simp add: read_scfa_inputs_unfold canon_rev sort_values_def len r2)
  have "hd (rows (replicate_doses\<lparr>rows := rev (rows replicate_doses)\<rparr>)) \<noteq> hd (rows replicate_doses)"
    by (simp add: replicate_doses_def replicate_row_def)
  then have p3: "replicate_doses\<lparr>rows := rev (rows replicate_doses)\<rparr> \<noteq> replicate_doses"
    by metis
  from reversing_sort_sorts p1 p2 p3 show ?thesis by blast
qed

text \<open>
  Claim C10. A dose table with two rows for the same condition, and so with more rows
  than there are expected conditions, passes \<^verbatim>\<open>read_scfa_inputs\<close>, which returns all of
  its rows: the condition check compares sets of names.
\<close>

theorem read_scfa_inputs_accepts_duplicates:
  "length (rows dup_table) > length [''High'', ''Low''] \<and>
   \<not> distinct (condition_names dup_table) \<and>
   read_scfa_inputs quicksort dup_table [''High'', ''Low''] =
     Inr (dup_table\<lparr>rows := [rows dup_table ! 1, rows dup_table ! 0, rows dup_table ! 2]\<rparr>)"
proof -
  have s: "{''Low'', ''High'', ''Low''} = {''High'', ''Low''}" by auto
  show ?thesis
    by (simp add: read_scfa_inputs_def sort_values_def dup_table_def needed_def
        dose_columns_def Let_def condition_names_def s)
qed

section \<open>Properties of the simulation runner\<close>

subsection \<open>Leaving the scope restores the bounds\<close>

lemma length_set_bounds [simp]: "length (set_bounds x b m) = length m"
  by (simp add: set_bounds_def)

lemma rid_set_bounds [simp]: "map rid (set_bounds x b m) = map rid m"
  by (simp add: set_bounds_def)

lemma nth_set_bounds:
  "i < length m \<Longrightarrow> set_bounds x b m ! i =
     (if rid (m ! i) = x then (m ! i)\<lparr>lower_bound := fst b, upper_bound := snd b\<rparr> else m ! i)"
  by (simp add: set_bounds_def)

lemma set_bounds_absent: "find (\<lambda>r. rid r = x) m = None \<Longrightarrow> set_bounds x b m = m"
  by (auto simp: set_bounds_def find_None_iff intro: map_idI)

lemma fst_set_bounds_ctx: "fst (set_bounds_ctx x b ctx) = set_bounds x b (fst ctx)"
  by (simp add: set_bounds_ctx_def set_bounds_absent split: option.splits)

lemma set_bounds_twice: "set_bounds x b' (set_bounds x b m) = set_bounds x b' m"
  by (simp add: set_bounds_def)

lemma find_rid_distinct:
  "distinct (map rid m) \<Longrightarrow> find (\<lambda>r. rid r = x) m = Some r \<Longrightarrow> r' \<in> set m \<Longrightarrow> rid r' = x
     \<Longrightarrow> r' = r"
proof (induction m)
  case Nil
  then show ?case by simp
next
  case (Cons a m)
  show ?case
  proof (cases "rid a = x")
    case True
    with Cons.prems have "r = a" by simp
    moreover have "r' = a"
    proof (rule ccontr)
      assume "r' \<noteq> a"
      with Cons.prems(3) have "r' \<in> set m" by simp
      then have "rid r' \<in> rid ` set m" by blast
      with Cons.prems(1,4) True show False by simp
    qed
    ultimately show ?thesis by simp
  next
    case False
    with Cons.prems have "find (\<lambda>r. rid r = x) m = Some r" "r' \<in> set m" "distinct (map rid m)"
      by auto
    with Cons.IH Cons.prems(4) show ?thesis by blast
  qed
qed

lemma set_bounds_restore:
  assumes "distinct (map rid m)" and "find (\<lambda>r. rid r = x) m = Some r"
  shows "set_bounds x (bounds r) (set_bounds x b m) = m"
proof -
  have "set_bounds x (bounds r) m = m"
    unfolding set_bounds_def
  proof (rule map_idI)
    fix r' assume r': "r' \<in> set m"
    show "(if rid r' = x then r'\<lparr>lower_bound := fst (bounds r), upper_bound := snd (bounds r)\<rparr>
           else r') = r'"
    proof (cases "rid r' = x")
      case True
      with assms r' have "r' = r" by (rule find_rid_distinct)
      then show ?thesis by (simp add: bounds_def)
    next
      case False
      then show ?thesis by simp
    qed
  qed
  then show ?thesis by (simp add: set_bounds_twice)
qed

lemma context_exit_set_bounds_ctx:
  assumes "distinct (map rid (fst ctx))"
  shows "context_exit (set_bounds_ctx x b ctx) = context_exit ctx"
proof (cases "find (\<lambda>r. rid r = x) (fst ctx)")
  case None
  then show ?thesis by (simp add: set_bounds_ctx_def)
next
  case (Some r)
  have "set_bounds x (bounds r) (set_bounds x b (fst ctx)) = fst ctx"
    using assms Some by (rule set_bounds_restore)
  then show ?thesis
    by (simp add: set_bounds_ctx_def Some context_exit_def)
qed

lemma rid_set_bounds_ctx: "map rid (fst (set_bounds_ctx x b ctx)) = map rid (fst ctx)"
  by (simp add: fst_set_bounds_ctx)

lemma apply_doses_steps:
  "apply_doses sr row ctx =
     dose_step sr row butyrate (dose_step sr row propionate (dose_step sr row acetate ctx))"
  by (simp add: apply_doses_def dose_step_def)

lemma rid_dose_step: "map rid (fst (dose_step sr row s c)) = map rid (fst c)"
  by (simp add: dose_step_def rid_set_bounds_ctx split: option.splits)

lemma context_exit_dose_step:
  "distinct (map rid (fst c)) \<Longrightarrow> context_exit (dose_step sr row s c) = context_exit c"
  by (simp add: dose_step_def context_exit_set_bounds_ctx split: option.splits)

lemma nth_dose_step:
  "i < length (fst c) \<Longrightarrow> fst (dose_step sr row s c) ! i = with_dose sr row s (fst c ! i)"
  by (auto simp: dose_step_def with_dose_def fst_set_bounds_ctx nth_set_bounds
      split: option.splits)

lemma rid_with_dose [simp]: "rid (with_dose sr row s r) = rid r"
  by (simp add: with_dose_def)

lemma rid_apply_doses: "map rid (fst (apply_doses sr row ctx)) = map rid (fst ctx)"
  by (simp add: apply_doses_steps rid_dose_step)

lemma context_exit_apply_doses:
  assumes "distinct (map rid m)"
  shows "context_exit (apply_doses sr row (m, [])) = m"
proof -
  let ?c1 = "dose_step sr row acetate (m, [])"
  let ?c2 = "dose_step sr row propionate ?c1"
  have d1: "distinct (map rid (fst ?c1))" using assms by (simp add: rid_dose_step)
  have d2: "distinct (map rid (fst ?c2))" using d1 by (simp add: rid_dose_step)
  have "context_exit (dose_step sr row butyrate ?c2) = context_exit ?c2"
    using d2 by (rule context_exit_dose_step)
  also have "\<dots> = context_exit ?c1"
    using d1 by (rule context_exit_dose_step)
  also have "\<dots> = context_exit (m, [])"
    using assms by (simp add: context_exit_dose_step)
  also have "\<dots> = m"
    by (simp add: context_exit_def)
  finally show ?thesis by (simp add: apply_doses_steps)
qed

lemma run_condition_isolated:
  assumes "distinct (map rid (model_of st))"
  shows "run_condition opt rs b row st =
           \<lparr>model_of = model_of st, solves = Suc (solves st),
            rows_out = rows_out st @ [condition_result opt rs b (model_of st) row]\<rparr>"
  using context_exit_apply_doses [OF assms]
  by (simp add: run_condition_def condition_result_def Let_def)

lemma run_conditions_isolated:
  assumes "distinct (map rid (model_of st))"
  shows "run_conditions opt rs b rws st =
           \<lparr>model_of = model_of st, solves = solves st + length rws,
            rows_out = rows_out st @ map (condition_result opt rs b (model_of st)) rws\<rparr>"
  using assms unfolding run_conditions_def
proof (induction rws arbitrary: st)
  case Nil
  then show ?case by simp
next
  case (Cons row rws)
  let ?st' = "run_condition opt rs b row st"
  have st': "?st' = \<lparr>model_of = model_of st, solves = Suc (solves st),
            rows_out = rows_out st @ [condition_result opt rs b (model_of st) row]\<rparr>"
    using Cons.prems by (rule run_condition_isolated)
  then have "distinct (map rid (model_of ?st'))"
    using Cons.prems by simp
  from Cons.IH [OF this] show ?case
    by (simp add: st')
qed

text \<open>
  Claim C3. On a network with unique reaction identifiers the loop over the conditions
  leaves the bounds as it found them, and yields one result row per dose row. The row
  of a condition is the same in any two runs of the loop in which that dose row
  occurs, whatever ran before it: in a permutation of the list, in a sublist, in any
  other list. The solver enters as a function of the objective and the bounds.
\<close>

theorem condition_isolation:
  assumes "distinct (map rid m)"
    and "i < length rws1" and "j < length rws2" and "rws1 ! i = rws2 ! j"
  shows "model_of (run_conditions opt rs b rws1 (initial_state m)) = m \<and>
         model_of (run_conditions opt rs b rws2 (initial_state m)) = m \<and>
         length (rows_out (run_conditions opt rs b rws1 (initial_state m))) = length rws1 \<and>
         length (rows_out (run_conditions opt rs b rws2 (initial_state m))) = length rws2 \<and>
         rows_out (run_conditions opt rs b rws1 (initial_state m)) ! i
           = rows_out (run_conditions opt rs b rws2 (initial_state m)) ! j"
proof -
  have d: "distinct (map rid (model_of (initial_state m)))"
    using assms(1) by (simp add: initial_state_def)
  have r: "run_conditions opt rs b rws (initial_state m) =
             \<lparr>model_of = m, solves = 1 + length rws,
              rows_out = map (condition_result opt rs b m) rws\<rparr>" for rws
    using run_conditions_isolated [OF d, of opt rs b rws] by (simp add: initial_state_def)
  show ?thesis
    using assms(2-4) by (simp add: r)
qed

theorem condition_isolation_witness:
  "distinct (map rid example_model) \<and>
   0 < length (rows example_doses) \<and> 1 < length [rows example_doses ! 2, rows example_doses ! 0] \<and>
   rows example_doses ! 0 = [rows example_doses ! 2, rows example_doses ! 0] ! 1 \<and>
   model_of (run_conditions toy_opt example_resolved 5 (rows example_doses)
               (initial_state example_model)) = example_model \<and>
   rows_out (run_conditions toy_opt example_resolved 5 (rows example_doses)
               (initial_state example_model)) ! 0
     = rows_out (run_conditions toy_opt example_resolved 5
                   [rows example_doses ! 2, rows example_doses ! 0]
                   (initial_state example_model)) ! 1"
proof -
  have h1: "distinct (map rid example_model)"
    by (simp add: example_model_def)
  have h2: "0 < length (rows example_doses)"
    by (simp add: example_doses_def)
  have h3: "1 < length [rows example_doses ! 2, rows example_doses ! 0]"
    by simp
  have h4: "rows example_doses ! 0 = [rows example_doses ! 2, rows example_doses ! 0] ! 1"
    by simp
  from h1 h2 h3 h4 condition_isolation [OF h1 h2 h3 h4, of toy_opt example_resolved 5]
  show ?thesis by blast
qed

subsection \<open>The dose step\<close>

lemma with_dose_miss: "sr s \<noteq> Some (rid r) \<Longrightarrow> with_dose sr row s r = r"
  by (simp add: with_dose_def)

lemma scfa_resolved_unique:
  assumes "find_rxn m (SCFA_RXN_IDS s) = Some x" and "find_rxn m (SCFA_RXN_IDS s') = Some x"
  shows "s = s'"
proof -
  from assms have "x \<in> set (SCFA_RXN_IDS s)" "x \<in> set (SCFA_RXN_IDS s')"
    by (auto dest: find_rxn_in)
  then show ?thesis
    by (cases s; cases s') auto
qed

lemma nth_apply_doses:
  assumes "i < length m"
  shows "fst (apply_doses sr row (m, h)) ! i =
           with_dose sr row butyrate (with_dose sr row propionate (with_dose sr row acetate (m ! i)))"
proof -
  let ?c1 = "dose_step sr row acetate (m, h)"
  let ?c2 = "dose_step sr row propionate ?c1"
  have l1: "i < length (fst ?c1)"
    using assms rid_dose_step [of sr row acetate "(m, h)"] by (metis length_map fst_conv)
  have l2: "i < length (fst ?c2)"
    using l1 rid_dose_step [of sr row propionate ?c1] by (metis length_map)
  have "fst ?c1 ! i = with_dose sr row acetate (m ! i)"
    using assms nth_dose_step [of i "(m, h)" sr row acetate] by simp
  moreover have "fst ?c2 ! i = with_dose sr row propionate (fst ?c1 ! i)"
    using l1 by (rule nth_dose_step)
  moreover have "fst (dose_step sr row butyrate ?c2) ! i = with_dose sr row butyrate (fst ?c2 ! i)"
    using l2 by (rule nth_dose_step)
  ultimately show ?thesis
    by (simp add: apply_doses_steps)
qed

text \<open>
  Claim C8. The dose step keeps the reactions. For a reaction that is the resolved
  exchange of an SCFA, it assigns the bounds \<open>(- dose, 0)\<close> when the dose of that SCFA
  is positive and leaves the reaction as the medium configuration left it when the dose
  is zero. A reaction that is not the resolved exchange of any SCFA is left as it is.
\<close>

theorem apply_doses_zero_dose:
  assumes "i < length m"
  shows "length (fst (apply_doses (\<lambda>s. find_rxn m (SCFA_RXN_IDS s)) row (m, h))) = length m \<and>
         (\<forall>s. find_rxn m (SCFA_RXN_IDS s) = Some (rid (m ! i)) \<longrightarrow>
              fst (apply_doses (\<lambda>s. find_rxn m (SCFA_RXN_IDS s)) row (m, h)) ! i =
                (if dose s row > 0 then (m ! i)\<lparr>lower_bound := - dose s row, upper_bound := 0\<rparr>
                 else m ! i)) \<and>
         ((\<forall>s. find_rxn m (SCFA_RXN_IDS s) \<noteq> Some (rid (m ! i))) \<longrightarrow>
              fst (apply_doses (\<lambda>s. find_rxn m (SCFA_RXN_IDS s)) row (m, h)) ! i = m ! i)"
proof -
  let ?sr = "\<lambda>s. find_rxn m (SCFA_RXN_IDS s)"
  let ?m' = "fst (apply_doses ?sr row (m, h))"
  have len: "length ?m' = length m"
    using rid_apply_doses [of ?sr row "(m, h)"] by (metis length_map fst_conv)
  have nth: "?m' ! i = with_dose ?sr row butyrate
                         (with_dose ?sr row propionate (with_dose ?sr row acetate (m ! i)))"
    using assms by (rule nth_apply_doses)
  have other: "with_dose ?sr row s' r = r"
    if "?sr s = Some (rid (m ! i))" and "s' \<noteq> s" and "rid r = rid (m ! i)" for s s' r
  proof -
    have "?sr s' \<noteq> Some (rid r)"
      using that scfa_resolved_unique [of m s' "rid (m ! i)" s] by auto
    then show ?thesis by (rule with_dose_miss)
  qed
  have hit: "?m' ! i = (if dose s row > 0
                        then (m ! i)\<lparr>lower_bound := - dose s row, upper_bound := 0\<rparr> else m ! i)"
    if s: "?sr s = Some (rid (m ! i))" for s
  proof (cases s)
    case acetate
    have a: "with_dose ?sr row acetate (m ! i) =
          (if dose s row > 0 then (m ! i)\<lparr>lower_bound := - dose s row, upper_bound := 0\<rparr> else m ! i)"
      using s acetate by (simp add: with_dose_def)
    have ra: "rid (with_dose ?sr row acetate (m ! i)) = rid (m ! i)" by simp
    have p: "with_dose ?sr row propionate (with_dose ?sr row acetate (m ! i))
               = with_dose ?sr row acetate (m ! i)"
      using other [OF s _ ra, of propionate] acetate by simp
    have b: "with_dose ?sr row butyrate (with_dose ?sr row acetate (m ! i))
               = with_dose ?sr row acetate (m ! i)"
      using other [OF s _ ra, of butyrate] acetate by simp
    have "?m' ! i = with_dose ?sr row butyrate (with_dose ?sr row acetate (m ! i))"
      by (simp only: nth p)
    also have "\<dots> = with_dose ?sr row acetate (m ! i)"
      by (rule b)
    finally show ?thesis by (simp only: a)
  next
    case propionate
    have a: "with_dose ?sr row acetate (m ! i) = m ! i"
      using other [OF s, of acetate "m ! i"] propionate by simp
    have p: "with_dose ?sr row propionate (m ! i) =
          (if dose s row > 0 then (m ! i)\<lparr>lower_bound := - dose s row, upper_bound := 0\<rparr> else m ! i)"
      using s propionate by (simp add: with_dose_def)
    have rp: "rid (with_dose ?sr row propionate (m ! i)) = rid (m ! i)" by simp
    have b: "with_dose ?sr row butyrate (with_dose ?sr row propionate (m ! i))
               = with_dose ?sr row propionate (m ! i)"
      using other [OF s _ rp, of butyrate] propionate by simp
    have "?m' ! i = with_dose ?sr row butyrate (with_dose ?sr row propionate (m ! i))"
      by (simp only: nth a)
    also have "\<dots> = with_dose ?sr row propionate (m ! i)"
      by (rule b)
    finally show ?thesis by (simp only: p)
  next
    case butyrate
    have a: "with_dose ?sr row acetate (m ! i) = m ! i"
      using other [OF s, of acetate "m ! i"] butyrate by simp
    have p: "with_dose ?sr row propionate (m ! i) = m ! i"
      using other [OF s, of propionate "m ! i"] butyrate by simp
    have b: "with_dose ?sr row butyrate (m ! i) =
          (if dose s row > 0 then (m ! i)\<lparr>lower_bound := - dose s row, upper_bound := 0\<rparr> else m ! i)"
      using s butyrate by (simp add: with_dose_def)
    have "?m' ! i = with_dose ?sr row butyrate (m ! i)"
      by (simp only: nth a p)
    then show ?thesis by (simp only: b)
  qed
  have miss: "?m' ! i = m ! i" if no: "\<forall>s. ?sr s \<noteq> Some (rid (m ! i))"
  proof -
    have w: "with_dose ?sr row s (m ! i) = m ! i" for s
      by (rule with_dose_miss) (use no in blast)
    show ?thesis by (simp only: nth w)
  qed
  from len hit miss show ?thesis by blast
qed

theorem apply_doses_zero_dose_witness:
  "2 < length example_model \<and>
   find_rxn example_model (SCFA_RXN_IDS acetate) = Some (rid (example_model ! 2)) \<and>
   dose acetate zero_acetate_row = 0 \<and>
   fst (apply_doses (\<lambda>s. find_rxn example_model (SCFA_RXN_IDS s)) zero_acetate_row
          (example_model, [])) ! 2 = example_model ! 2 \<and>
   dose acetate (rows example_doses ! 0) = 1 \<and>
   fst (apply_doses (\<lambda>s. find_rxn example_model (SCFA_RXN_IDS s)) (rows example_doses ! 0)
          (example_model, [])) ! 2
     = (example_model ! 2)\<lparr>lower_bound := - 1, upper_bound := 0\<rparr>"
proof -
  have h1: "2 < length example_model"
    by (simp add: example_model_def)
  have h2: "find_rxn example_model (SCFA_RXN_IDS acetate) = Some (rid (example_model ! 2))"
    by (simp add: example_model_def has_rxn_def)
  have d0: "dose acetate zero_acetate_row = 0"
    by (simp add: dose_def zero_acetate_row_def)
  have d1: "dose acetate (rows example_doses ! 0) = 1"
    by (simp add: dose_def example_doses_def)
  from apply_doses_zero_dose [OF h1, of zero_acetate_row "[]"] h2
  have "fst (apply_doses (\<lambda>s. find_rxn example_model (SCFA_RXN_IDS s)) zero_acetate_row
          (example_model, [])) ! 2
     = (if dose acetate zero_acetate_row > 0
        then (example_model ! 2)\<lparr>lower_bound := - dose acetate zero_acetate_row, upper_bound := 0\<rparr>
        else example_model ! 2)"
    by blast
  then have r0: "fst (apply_doses (\<lambda>s. find_rxn example_model (SCFA_RXN_IDS s)) zero_acetate_row
          (example_model, [])) ! 2 = example_model ! 2"
    by (simp only: d0 less_irrefl if_False)
  from apply_doses_zero_dose [OF h1, of "rows example_doses ! 0" "[]"] h2
  have "fst (apply_doses (\<lambda>s. find_rxn example_model (SCFA_RXN_IDS s)) (rows example_doses ! 0)
          (example_model, [])) ! 2
     = (if dose acetate (rows example_doses ! 0) > 0
        then (example_model ! 2)\<lparr>lower_bound := - dose acetate (rows example_doses ! 0),
                                  upper_bound := 0\<rparr>
        else example_model ! 2)"
    by blast
  then have r1: "fst (apply_doses (\<lambda>s. find_rxn example_model (SCFA_RXN_IDS s)) (rows example_doses ! 0)
          (example_model, [])) ! 2
     = (example_model ! 2)\<lparr>lower_bound := - 1, upper_bound := 0\<rparr>"
    by (simp only: d1 zero_less_one if_True)
  from h1 h2 d0 r0 d1 r1 show ?thesis by blast
qed

subsection \<open>The percent change\<close>

text \<open>
  Claim C9. In the result row of a condition the percent change is the missing-value
  marker when the baseline objective is zero, and otherwise 100 times the difference
  between the objective of the condition and the baseline, divided by the baseline.
\<close>

theorem pct_change_zero_baseline:
  "objective_pct_change (last (rows_out (run_condition opt rs b row st))) =
     (if b = 0 then NaN
      else Num (100 * (r_objective_value (last (rows_out (run_condition opt rs b row st))) - b) / b))
   \<and> baseline_objective (last (rows_out (run_condition opt rs b row st))) = b"
  by (simp add: run_condition_def Let_def pct_change_def)

theorem pct_change_zero_baseline_witness:
  "objective_pct_change (last (rows_out (run_condition toy_opt example_resolved 0
       (rows example_doses ! 0) (initial_state example_model)))) = NaN \<and>
   objective_pct_change (last (rows_out (run_condition toy_opt example_resolved 4
       (rows example_doses ! 0) (initial_state example_model)))) =
     Num (100 * (r_objective_value (last (rows_out (run_condition toy_opt example_resolved 4
       (rows example_doses ! 0) (initial_state example_model)))) - 4) / 4)"
  using pct_change_zero_baseline [of toy_opt example_resolved 0 "rows example_doses ! 0"
      "initial_state example_model"]
    pct_change_zero_baseline [of toy_opt example_resolved 4 "rows example_doses ! 0"
      "initial_state example_model"]
  by simp

subsection \<open>The objective reaction is mandatory\<close>

text \<open>
  Claim C7. When neither \<^verbatim>\<open>ATPM\<close> nor \<^verbatim>\<open>DM_atp_c_\<close> is a reaction of the loaded
  network, \<^verbatim>\<open>main\<close> ends with an error and has run no optimization; when the dose
  table and the configuration are accepted, the error is the one raised for the
  missing objective reaction.
\<close>

theorem main_aborts_without_ATPM:
  assumes "find_rxn model ATPM_IDS = None"
  shows "snd (main opt quicksort df conditions model sim) = 0 \<and>
         (\<exists>e. fst (main opt quicksort df conditions model sim) = Inl e) \<and>
         (\<forall>scfa_df m. read_scfa_inputs quicksort df conditions = Inr scfa_df \<and>
                       setup_medium model sim = Inr m
            \<longrightarrow> main opt quicksort df conditions model sim = (Inl RuntimeError_no_ATPM, 0))"
proof -
  have no: "find_rxn m ATPM_IDS = None" if "setup_medium model sim = Inr m" for m
    using assms find_rxn_cong [OF setup_medium_rid [OF that], of ATPM_IDS] by simp
  show ?thesis
    by (auto simp: main_def no split: sum.splits)
qed

theorem main_aborts_without_ATPM_witness:
  "find_rxn model_without_ATPM ATPM_IDS = None \<and>
   (\<exists>scfa_df. read_scfa_inputs insertion_sort example_doses [''Low'', ''Mid'', ''High''] = Inr scfa_df) \<and>
   (\<exists>m. setup_medium model_without_ATPM example_sim = Inr m) \<and>
   main toy_opt insertion_sort example_doses [''Low'', ''Mid'', ''High''] model_without_ATPM example_sim
     = (Inl RuntimeError_no_ATPM, 0)"
proof -
  have h: "find_rxn model_without_ATPM ATPM_IDS = None"
    by (simp add: model_without_ATPM_def ATPM_IDS_def has_rxn_def)
  have s: "{''Low'', ''Mid'', ''High''} = {''High'', ''Low'', ''Mid''}" by auto
  have v: "\<exists>scfa_df. read_scfa_inputs insertion_sort example_doses [''Low'', ''Mid'', ''High''] = Inr scfa_df"
    by (simp add: read_scfa_inputs_def example_doses_def needed_def dose_columns_def Let_def)
  have m: "\<exists>m. setup_medium model_without_ATPM example_sim = Inr m"
    by (rule setup_medium_succeeds [where ?o2.0 = 2 and glc = 1])
       (simp_all add: model_without_ATPM_def example_sim_def cap_ok_def is_boundary_def
          startswith_def)
  from h v m main_aborts_without_ATPM [OF h, of toy_opt insertion_sort example_doses
      "[''Low'', ''Mid'', ''High'']" example_sim]
  show ?thesis by blast
qed

end
